theory Spec2Isabelle
  imports
    Complex_Main
    "HOL-Library.Word"
    "HOL-Library.Char_ord"
    "HOL-Library.List_Lexorder"
    "HOL-Library.Multiset"
begin

section \<open>Run history store of the cover localizer (\<^verbatim>\<open>src/lib/db.ts\<close>)\<close>

text \<open>
  The module keeps run metadata in an in-memory SQLite table \<^verbatim>\<open>runs\<close> (sql.js), writes
  a snapshot of that table to the IndexedDB object store \<^verbatim>\<open>sqlite\<close> after every
  mutation, and keeps the images in a second object store \<^verbatim>\<open>images\<close>.

  The embedding covers the store once \<^verbatim>\<open>initDatabase\<close> has resolved: the module variable
  \<^verbatim>\<open>db\<close> is then set for the rest of the session and every later \<^verbatim>\<open>initDatabase()\<close>
  returns it at its first line without any effect. A string is the list of the bytes of
  its UTF-8 encoding, so that U+0000 is the byte 0; a string with a lone surrogate has no
  such encoding and is outside the embedding. A JavaScript number is a \<open>number\<close>, a
  nullable column is an \<open>option\<close>. What the platform decides (the clock, the random
  number generator, how an IndexedDB call ends) is an explicit argument \<open>env\<close> of every
  operation; the SHA-256 digest of the platform is the argument \<open>digest\<close>.
\<close>

subsection \<open>Types\<close>

text \<open>
  A JavaScript number: a finite value, one of the two infinities, or \<^verbatim>\<open>NaN\<close>. The fields
  of \<^verbatim>\<open>RunInsert\<close> are typed \<^verbatim>\<open>number | null\<close>; the caller passes differences of
  \<^verbatim>\<open>performance.now()\<close> as \<^verbatim>\<open>durationMs\<close>, which are not integers.
\<close>

datatype number = Number real | Infinity | NegInfinity | NaN

text \<open>
  \<^verbatim>\<open>RunRecord\<close> and \<^verbatim>\<open>RunInsert\<close> are flat interfaces in the source that repeat fourteen
  field names. A field name is a constant here, so the fourteen shared fields are the
  record \<open>RunFields\<close> and both interfaces extend it. The field \<^verbatim>\<open>id\<close> is named
  \<open>runId\<close> (\<open>id\<close> is the identity function of HOL).
\<close>

record RunFields =
  createdAt :: string
  modelId :: string
  modelLabel :: string
  promptTemplate :: string
  compiledPrompt :: string
  newTitle :: string
  servedBy :: "string option"
  route :: "string option"
  promptTokens :: "number option"
  completionTokens :: "number option"
  totalTokens :: "number option"
  cost :: "number option"
  durationMs :: "number option"
  humanComment :: "string option"

record RunRecord = RunFields +
  runId :: int
  inputImageId :: string
  outputImageId :: string

record RunInsert = RunFields +
  inputImage :: string
  outputImage :: string

text \<open>
  The sql.js database: the rows of table \<^verbatim>\<open>runs\<close> as they are stored, in rowid order
  (the order of a table scan), and the counter that \<^verbatim>\<open>AUTOINCREMENT\<close> keeps in
  \<^verbatim>\<open>sqlite_sequence\<close>.
\<close>

record Database =
  runs :: "RunRecord list"
  sqlite_sequence :: int

text \<open>
  The whole store: the module variable \<^verbatim>\<open>db\<close>, the object store \<^verbatim>\<open>images\<close> and the
  entry of the object store \<^verbatim>\<open>sqlite\<close> under \<^verbatim>\<open>DB_KEY\<close> (\<open>db.export()\<close> and
  \<open>new SQL.Database(data)\<close> are inverse to each other, so the snapshot is the database
  itself).
\<close>

record Store =
  db :: Database
  images :: "string \<rightharpoonup> string"
  sqlite :: "Database option"

text \<open>
  The calls to IndexedDB, and how the promise of a call ends. A call that fails leaves
  the object store as it was. A read (\<^verbatim>\<open>imageExists\<close>, \<^verbatim>\<open>loadImage\<close>) that fails is
  rejected with the error of \<^verbatim>\<open>openIDB\<close> or of its request. A write (the put of
  \<^verbatim>\<open>saveImageDeduped\<close>, \<^verbatim>\<open>deleteImage\<close>, \<^verbatim>\<open>saveToIndexedDB\<close>) settles in
  \<^verbatim>\<open>tx.oncomplete\<close> and \<^verbatim>\<open>tx.onerror\<close> only: when its transaction is aborted without an
  error event (the quota is exceeded at commit, say) neither handler runs and the
  promise stays pending for ever.
\<close>

datatype Call =
  ImageExists string
  | PutImage string
  | GetImage string
  | DeleteImage string
  | SaveToIndexedDB

datatype error = IDBError Call

datatype 'a promise = Resolved 'a | Rejected error | Pending

text \<open>
  What the platform decides during one operation: the value of \<^verbatim>\<open>Date.now()\<close>, the string
  \<^verbatim>\<open>Math.random().toString(36)\<close>, the calls that fail (\<open>faults\<close>), those of the failing
  writes whose transaction is aborted without an error event (\<open>silent\<close>), and, when both
  promises of a \<^verbatim>\<open>Promise.all\<close> are rejected, whether the rejection of the second one
  comes first in time (\<open>second_first\<close>).
\<close>

record Env =
  date_now :: nat
  math_random :: string
  faults :: "Call set"
  silent :: "Call set"
  second_first :: bool

type_synonym byte = "8 word"

type_synonym Digest = "string \<Rightarrow> byte list"

subsection \<open>Image keys\<close>

definition hex_digits :: string where
  "hex_digits = ''0123456789abcdef''"

text \<open>\<^verbatim>\<open>b.toString(16)\<close> for a byte \<open>b\<close> (\<open>n < 256\<close>), and \<^verbatim>\<open>padStart\<close>.\<close>

definition toString16 :: "nat \<Rightarrow> string" where
  "toString16 n =
     (if n < 16 then [hex_digits ! n]
      else [hex_digits ! (n div 16), hex_digits ! (n mod 16)])"

definition padStart :: "nat \<Rightarrow> char \<Rightarrow> string \<Rightarrow> string" where
  "padStart n c s = replicate (n - length s) c @ s"

text \<open>The decimal numeral that a template literal prints for a non-negative integer.\<close>

fun toString10 :: "nat \<Rightarrow> string" where
  "toString10 n =
     (if n < 10 then [hex_digits ! n]
      else toString10 (n div 10) @ [hex_digits ! (n mod 10)])"

declare toString10.simps [simp del]

text \<open>
  \<^verbatim>\<open>hashImage\<close>: \<open>digest data\<close> is the byte array of
  \<^verbatim>\<open>crypto.subtle.digest("SHA-256", encoder.encode(data))\<close>.
\<close>

definition hashImage :: "Digest \<Rightarrow> string \<Rightarrow> string" where
  "hashImage digest data =
     (let hashArray = digest data;
          hashHex = concat (map (\<lambda>b. padStart 2 (CHR ''0'') (toString16 (unat b))) hashArray)
      in ''img_'' @ take 16 hashHex)"

text \<open>
  The key of the \<^verbatim>\<open>forceNew\<close> branch:
  \<^verbatim>\<open>img_${Date.now()}_${Math.random().toString(36).slice(2, 9)}\<close>, where \<open>math_random env\<close>
  is the string \<^verbatim>\<open>Math.random().toString(36)\<close>.
\<close>

definition newImageId :: "Env \<Rightarrow> string" where
  "newImageId env =
     ''img_'' @ toString10 (date_now env) @ ''_'' @ take 7 (drop 2 (math_random env))"

subsection \<open>Promises\<close>

text \<open>How a failing write \<open>c\<close> ends.\<close>

definition failure :: "Env \<Rightarrow> Call \<Rightarrow> 'a promise" where
  "failure env c = (if c \<in> silent env then Pending else Rejected (IDBError c))"

text \<open>
  \<^verbatim>\<open>await\<close>: the rest of the function runs with the value of a resolved promise; a
  rejected promise rejects the function with the same error; while the promise is
  pending the function does not go on.
\<close>

definition await ::
  "'a promise \<times> Store \<Rightarrow> ('a \<Rightarrow> Store \<Rightarrow> 'b promise \<times> Store) \<Rightarrow> 'b promise \<times> Store" where
  "await p k =
     (case p of
        (Resolved a, s) \<Rightarrow> k a s
      | (Rejected e, s) \<Rightarrow> (Rejected e, s)
      | (Pending, s) \<Rightarrow> (Pending, s))"

text \<open>
  \<^verbatim>\<open>Promise.all\<close> of two promises: rejected as soon as one of them is, with the error
  that comes first; resolved when both are; pending otherwise.
\<close>

fun settle_all :: "bool \<Rightarrow> 'a promise \<Rightarrow> 'b promise \<Rightarrow> ('a \<times> 'b) promise" where
  "settle_all sf (Rejected e) (Rejected e') = Rejected (if sf then e' else e)"
| "settle_all sf (Rejected e) (Resolved b) = Rejected e"
| "settle_all sf (Rejected e) Pending = Rejected e"
| "settle_all sf (Resolved a) (Rejected e') = Rejected e'"
| "settle_all sf Pending (Rejected e') = Rejected e'"
| "settle_all sf (Resolved a) (Resolved b) = Resolved (a, b)"
| "settle_all sf (Resolved a) Pending = Pending"
| "settle_all sf Pending (Resolved b) = Pending"
| "settle_all sf Pending Pending = Pending"

text \<open>
  \<^verbatim>\<open>Promise.all\<close> of two calls that were both started: each runs to its end whatever
  the other does. \<open>both env f g s\<close> runs \<open>f\<close> and then \<open>g\<close>; the two image calls of
  \<^verbatim>\<open>saveRun\<close> and of \<^verbatim>\<open>deleteRun\<close> commute wherever their keys differ, so that the order
  of their effects does not show.
\<close>

definition both ::
  "Env \<Rightarrow> (Store \<Rightarrow> 'a promise \<times> Store) \<Rightarrow> (Store \<Rightarrow> 'b promise \<times> Store) \<Rightarrow>
   Store \<Rightarrow> ('a \<times> 'b) promise \<times> Store" where
  "both env f g s =
     (let (ra, s1) = f s; (rb, s2) = g s1 in (settle_all (second_first env) ra rb, s2))"

subsection \<open>IndexedDB helpers\<close>

definition imageExists :: "Env \<Rightarrow> string \<Rightarrow> Store \<Rightarrow> bool promise" where
  "imageExists env imageId s =
     (if ImageExists imageId \<in> faults env then Rejected (IDBError (ImageExists imageId))
      else Resolved (images s imageId \<noteq> None))"

definition saveImageDeduped ::
  "Digest \<Rightarrow> Env \<Rightarrow> string \<Rightarrow> bool \<Rightarrow> Store \<Rightarrow> string promise \<times> Store" where
  "saveImageDeduped digest env data forceNew s =
     (let imageId = (if forceNew then newImageId env else hashImage digest data) in
      await (if \<not> forceNew then imageExists env imageId s else Resolved False, s)
        (\<lambda>exists s.
           if exists then (Resolved imageId, s)
           else if PutImage imageId \<in> faults env then (failure env (PutImage imageId), s)
           else (Resolved imageId, s\<lparr>images := (images s)(imageId \<mapsto> data)\<rparr>)))"

definition loadImage :: "Env \<Rightarrow> string \<Rightarrow> Store \<Rightarrow> string option promise" where
  "loadImage env imageId s =
     (if GetImage imageId \<in> faults env then Rejected (IDBError (GetImage imageId))
      else Resolved (images s imageId))"

definition deleteImage :: "Env \<Rightarrow> string \<Rightarrow> Store \<Rightarrow> unit promise \<times> Store" where
  "deleteImage env imageId s =
     (if DeleteImage imageId \<in> faults env then (failure env (DeleteImage imageId), s)
      else (Resolved (), s\<lparr>images := (images s)(imageId := None)\<rparr>))"

definition saveToIndexedDB :: "Env \<Rightarrow> Database \<Rightarrow> Store \<Rightarrow> unit promise \<times> Store" where
  "saveToIndexedDB env data s =
     (if SaveToIndexedDB \<in> faults env then (failure env SaveToIndexedDB, s)
      else (Resolved (), s\<lparr>sqlite := Some data\<rparr>))"

text \<open>
  \<^verbatim>\<open>persistDatabase\<close>: \<^verbatim>\<open>db\<close> is set, so the early return for a missing database is not
  taken.
\<close>

definition persistDatabase :: "Env \<Rightarrow> Store \<Rightarrow> unit promise \<times> Store" where
  "persistDatabase env s = saveToIndexedDB env (db s) s"

subsection \<open>The SQL statements\<close>

text \<open>
  A number bound to a parameter of a statement: SQLite stores \<^verbatim>\<open>NaN\<close> as \<^verbatim>\<open>NULL\<close>; every
  other number is read back as it was bound, also from a column declared \<^verbatim>\<open>INTEGER\<close>.
\<close>

definition bind_number :: "number option \<Rightarrow> number option" where
  "bind_number v = (if v = Some NaN then None else v)"

text \<open>
  \<^verbatim>\<open>INSERT INTO runs (...) VALUES (...)\<close> on a table whose key is
  \<^verbatim>\<open>INTEGER PRIMARY KEY AUTOINCREMENT\<close>: the new rowid is one more than the largest rowid
  the table ever held.
\<close>

definition last_rowid :: "Database \<Rightarrow> int" where
  "last_rowid d = fold max (map runId (runs d)) (sqlite_sequence d)"

definition insert_values :: "RunInsert \<Rightarrow> int \<Rightarrow> string \<Rightarrow> string \<Rightarrow> RunRecord" where
  "insert_values run rowid inputId outputId =
     \<lparr>createdAt = createdAt run, modelId = modelId run,
      modelLabel = modelLabel run, promptTemplate = promptTemplate run,
      compiledPrompt = compiledPrompt run, newTitle = newTitle run,
      servedBy = servedBy run, route = route run,
      promptTokens = bind_number (promptTokens run),
      completionTokens = bind_number (completionTokens run),
      totalTokens = bind_number (totalTokens run), cost = bind_number (cost run),
      durationMs = bind_number (durationMs run), humanComment = humanComment run,
      runId = rowid, inputImageId = inputId, outputImageId = outputId\<rparr>"

definition sql_insert :: "RunInsert \<Rightarrow> string \<Rightarrow> string \<Rightarrow> Database \<Rightarrow> int \<times> Database" where
  "sql_insert run inputId outputId d =
     (let rowid = last_rowid d + 1 in
      (rowid,
       d\<lparr>runs := runs d @ [insert_values run rowid inputId outputId],
         sqlite_sequence := rowid\<rparr>))"



text \<open>
  A row as a prepared statement of sql.js returns it: a \<^verbatim>\<open>TEXT\<close> value is read as a C
  string, that is up to its first U+0000. The two key columns hold keys that
  \<^verbatim>\<open>saveImageDeduped\<close> made, of hexadecimal digits, decimal digits and the characters of
  \<^verbatim>\<open>Math.random().toString(36)\<close>; they are read back as they are.
\<close>

definition column_text :: "string \<Rightarrow> string" where
  "column_text t = takeWhile (\<lambda>c. c \<noteq> CHR 0x00) t"

definition column_row :: "RunRecord \<Rightarrow> RunRecord" where
  "column_row r =
     r\<lparr>createdAt := column_text (createdAt r), modelId := column_text (modelId r),
       modelLabel := column_text (modelLabel r),
       promptTemplate := column_text (promptTemplate r),
       compiledPrompt := column_text (compiledPrompt r),
       newTitle := column_text (newTitle r),
       servedBy := map_option column_text (servedBy r),
       route := map_option column_text (route r),
       humanComment := map_option column_text (humanComment r)\<rparr>"

text \<open>\<^verbatim>\<open>SELECT ... FROM runs WHERE id = ?\<close>, first row.\<close>

definition sql_select_by_id :: "int \<Rightarrow> Database \<Rightarrow> RunRecord option" where
  "sql_select_by_id i d = find (\<lambda>r. runId r = i) (runs d)"

text \<open>\<^verbatim>\<open>UPDATE runs SET human_comment = ? WHERE id = ?\<close>\<close>

definition sql_update_comment :: "string \<Rightarrow> int \<Rightarrow> Database \<Rightarrow> Database" where
  "sql_update_comment comment i d =
     d\<lparr>runs := map (\<lambda>r. if runId r = i then r\<lparr>humanComment := Some comment\<rparr> else r) (runs d)\<rparr>"

text \<open>\<^verbatim>\<open>SELECT COUNT(*) FROM runs WHERE input_image_id = ? AND id != ?\<close>\<close>

definition sql_count_input_usage :: "string \<Rightarrow> int \<Rightarrow> Database \<Rightarrow> nat" where
  "sql_count_input_usage k i d =
     length (filter (\<lambda>r. inputImageId r = k \<and> runId r \<noteq> i) (runs d))"

text \<open>\<^verbatim>\<open>DELETE FROM runs WHERE id = ?\<close>\<close>

definition sql_delete :: "int \<Rightarrow> Database \<Rightarrow> Database" where
  "sql_delete i d = d\<lparr>runs := filter (\<lambda>r. runId r \<noteq> i) (runs d)\<rparr>"

subsection \<open>CRUD operations\<close>

definition saveRun :: "Digest \<Rightarrow> Env \<Rightarrow> RunInsert \<Rightarrow> Store \<Rightarrow> int promise \<times> Store" where
  "saveRun digest env run s =
     await (both env (saveImageDeduped digest env (inputImage run) False)
                     (saveImageDeduped digest env (outputImage run) True) s)
       (\<lambda>(inputId, outputId) s'.
          let (rowid, d) = sql_insert run inputId outputId (db s') in
          await (persistDatabase env (s'\<lparr>db := d\<rparr>)) (\<lambda>_ s3. (Resolved rowid, s3)))"


definition getRunById :: "int \<Rightarrow> Store \<Rightarrow> RunRecord option" where
  "getRunById i s = map_option column_row (sql_select_by_id i (db s))"

text \<open>
  \<^verbatim>\<open>loadImagesForRun\<close> returns the object \<^verbatim>\<open>{ inputImage, outputImage }\<close>, here the pair
  of the two strings; a missing image is the empty string. The two reads change
  nothing, and a read is either resolved or rejected.
\<close>

definition loadImagesForRun :: "Env \<Rightarrow> RunRecord \<Rightarrow> Store \<Rightarrow> (string \<times> string) promise" where
  "loadImagesForRun env run s =
     (case settle_all (second_first env) (loadImage env (inputImageId run) s)
             (loadImage env (outputImageId run) s) of
        Resolved (inputImg, outputImg) \<Rightarrow>
          Resolved (case inputImg of None \<Rightarrow> [] | Some v \<Rightarrow> v,
                    case outputImg of None \<Rightarrow> [] | Some v \<Rightarrow> v)
      | Rejected e \<Rightarrow> Rejected e
      | Pending \<Rightarrow> Pending)"

definition updateRunComment :: "Env \<Rightarrow> int \<Rightarrow> string \<Rightarrow> Store \<Rightarrow> unit promise \<times> Store" where
  "updateRunComment env i comment s =
     persistDatabase env (s\<lparr>db := sql_update_comment comment i (db s)\<rparr>)"

definition deleteRun :: "Env \<Rightarrow> int \<Rightarrow> Store \<Rightarrow> unit promise \<times> Store" where
  "deleteRun env i s =
     (case getRunById i s of
        None \<Rightarrow> (Resolved (), s)
      | Some run \<Rightarrow>
          (let inputUsageCount = sql_count_input_usage (inputImageId run) i (db s) in
           await (persistDatabase env (s\<lparr>db := sql_delete i (db s)\<rparr>))
             (\<lambda>_ s2.
                if inputUsageCount = 0 then
                  await (both env (deleteImage env (outputImageId run))
                                  (deleteImage env (inputImageId run)) s2)
                    (\<lambda>_ s3. (Resolved (), s3))
                else deleteImage env (outputImageId run) s2)))"

subsection \<open>States of a session\<close>

text \<open>
  The store of a fresh browser profile after \<^verbatim>\<open>initDatabase\<close>: an empty table, its
  snapshot, no image.
\<close>

definition initial_store :: Store where
  "initial_store =
     \<lparr>db = \<lparr>runs = [], sqlite_sequence = 0\<rparr>, images = Map.empty,
      sqlite = Some \<lparr>runs = [], sqlite_sequence = 0\<rparr>\<rparr>"

text \<open>
  The stores that \<^verbatim>\<open>saveRun\<close>, \<^verbatim>\<open>updateRunComment\<close> and \<^verbatim>\<open>deleteRun\<close> calls reach when
  they run one after the other, no call starting before the effects of the one before
  it are over, however each call ends and whatever the clock and the random number
  generator give. Calls that overlap in time are not covered.
\<close>

inductive reachable :: "Digest \<Rightarrow> Store \<Rightarrow> bool" for digest :: Digest where
  reach_init: "reachable digest initial_store"
| reach_saveRun:
    "reachable digest s \<Longrightarrow> reachable digest (snd (saveRun digest env run s))"
| reach_updateRunComment:
    "reachable digest s \<Longrightarrow> reachable digest (snd (updateRunComment env i comment s))"
| reach_deleteRun:
    "reachable digest s \<Longrightarrow> reachable digest (snd (deleteRun env i s))"

subsection \<open>Predicates of the claims\<close>

text \<open>Two rows agree in every column but \<^verbatim>\<open>human_comment\<close>.\<close>

definition same_except_comment :: "RunRecord \<Rightarrow> RunRecord \<Rightarrow> bool" where
  "same_except_comment r r' =
     (runId r' = runId r \<and> createdAt r' = createdAt r \<and> modelId r' = modelId r \<and>
      modelLabel r' = modelLabel r \<and> promptTemplate r' = promptTemplate r \<and>
      compiledPrompt r' = compiledPrompt r \<and> newTitle r' = newTitle r \<and>
      inputImageId r' = inputImageId r \<and> outputImageId r' = outputImageId r \<and>
      servedBy r' = servedBy r \<and> route r' = route r \<and>
      promptTokens r' = promptTokens r \<and> completionTokens r' = completionTokens r \<and>
      totalTokens r' = totalTokens r \<and> cost r' = cost r \<and> durationMs r' = durationMs r)"

text \<open>The metadata of a stored row is that of the inserted run.\<close>

definition same_metadata :: "RunInsert \<Rightarrow> RunRecord \<Rightarrow> bool" where
  "same_metadata run row =
     (createdAt row = createdAt run \<and> modelId row = modelId run \<and>
      modelLabel row = modelLabel run \<and> promptTemplate row = promptTemplate run \<and>
      compiledPrompt row = compiledPrompt run \<and> newTitle row = newTitle run \<and>
      servedBy row = servedBy run \<and> route row = route run \<and>
      promptTokens row = promptTokens run \<and> completionTokens row = completionTokens run \<and>
      totalTokens row = totalTokens run \<and> cost row = cost run \<and>
      durationMs row = durationMs run \<and> humanComment row = humanComment run)"

text \<open>
  The values that SQLite gives back as they were bound: a text without U+0000, a number
  other than \<^verbatim>\<open>NaN\<close>.
\<close>

definition plain_text :: "string \<Rightarrow> bool" where
  "plain_text t = (CHR 0x00 \<notin> set t)"

definition plain_number :: "number option \<Rightarrow> bool" where
  "plain_number v = (v \<noteq> Some NaN)"

definition plain_run :: "RunInsert \<Rightarrow> bool" where
  "plain_run run =
     (plain_text (createdAt run) \<and> plain_text (modelId run) \<and> plain_text (modelLabel run) \<and>
      plain_text (promptTemplate run) \<and> plain_text (compiledPrompt run) \<and>
      plain_text (newTitle run) \<and>
      (case servedBy run of None \<Rightarrow> True | Some t \<Rightarrow> plain_text t) \<and>
      (case route run of None \<Rightarrow> True | Some t \<Rightarrow> plain_text t) \<and>
      (case humanComment run of None \<Rightarrow> True | Some t \<Rightarrow> plain_text t) \<and>
      plain_number (promptTokens run) \<and> plain_number (completionTokens run) \<and>
      plain_number (totalTokens run) \<and> plain_number (cost run) \<and>
      plain_number (durationMs run))"

subsection \<open>Invariants\<close>

text \<open>
  A content key has no underscore after its prefix \<open>img_\<close>; a key of the \<^verbatim>\<open>forceNew\<close>
  branch has one.
\<close>

definition content_key :: "string \<Rightarrow> bool" where
  "content_key k = (CHR ''_'' \<notin> set (drop 4 k))"

text \<open>Every input key of the table is a content key and no output key is one.\<close>

definition keys_separate :: "Store \<Rightarrow> bool" where
  "keys_separate s =
     (\<forall>r \<in> set (runs (db s)). content_key (inputImageId r) \<and> \<not> content_key (outputImageId r))"

text \<open>Every row references an input image that the object store holds.\<close>

definition inputs_exist :: "Store \<Rightarrow> bool" where
  "inputs_exist s = (\<forall>r \<in> set (runs (db s)). images s (inputImageId r) \<noteq> None)"

subsection \<open>A digest for closed instances\<close>

text \<open>
  The platform digest is an argument of the theory. Closed instances of the theorems
  take \<open>byte_digest\<close> in its place, the bytes of the image itself: like SHA-256 it is a
  function of the content alone.
\<close>

definition byte_digest :: Digest where
  "byte_digest data = map (\<lambda>c. of_nat (of_char c)) data"

subsection \<open>Example data\<close>

text \<open>
  The concrete scenario of the specification: runs with the images \<open>AAA\<close>, \<open>BBB\<close>,
  \<open>CCC\<close>, saved on a fresh store. In \<open>env_of now rnd fs\<close> the calls \<open>fs\<close> are rejected; in
  \<open>env_aborting now rnd fs\<close> their transactions are aborted without an error event.
\<close>

definition example_run :: "string \<Rightarrow> string \<Rightarrow> string \<Rightarrow> RunInsert" where
  "example_run t inp out =
     \<lparr>createdAt = t, modelId = ''google/gemini-3-pro-image-preview'',
      modelLabel = ''Gemini 3 Pro Image Preview'', promptTemplate = [],
      compiledPrompt = ''This is a sample to show what the app can do.'',
      newTitle = ''Title'', servedBy = None, route = None,
      promptTokens = Some (Number 368), completionTokens = Some (Number 1443),
      totalTokens = Some (Number 1811), cost = Some (Number (138 / 1000)),
      durationMs = Some (Number 19000),
      humanComment = Some ''low-res input'', inputImage = inp, outputImage = out\<rparr>"

definition example_row :: "int \<Rightarrow> string \<Rightarrow> string \<Rightarrow> string \<Rightarrow> RunRecord" where
  "example_row i t inputId outputId =
     \<lparr>createdAt = t, modelId = ''google/gemini-3-pro-image-preview'',
      modelLabel = ''Gemini 3 Pro Image Preview'', promptTemplate = [],
      compiledPrompt = ''This is a sample to show what the app can do.'',
      newTitle = ''Title'', servedBy = None, route = None,
      promptTokens = Some (Number 368), completionTokens = Some (Number 1443),
      totalTokens = Some (Number 1811), cost = Some (Number (138 / 1000)),
      durationMs = Some (Number 19000),
      humanComment = Some ''low-res input'', runId = i, inputImageId = inputId,
      outputImageId = outputId\<rparr>"

definition env_of :: "nat \<Rightarrow> string \<Rightarrow> Call set \<Rightarrow> Env" where
  "env_of now rnd fs =
     \<lparr>date_now = now, math_random = rnd, faults = fs, silent = {}, second_first = False\<rparr>"

definition env_aborting :: "nat \<Rightarrow> string \<Rightarrow> Call set \<Rightarrow> Env" where
  "env_aborting now rnd fs =
     \<lparr>date_now = now, math_random = rnd, faults = fs, silent = fs, second_first = False\<rparr>"

text \<open>
  Three saved runs: the first two share the input image, the last two share the
  creation time.
\<close>

definition store1 :: Store where
  "store1 =
     snd (saveRun byte_digest (env_of 1700000000000 ''0.k3j2h4g5f6d'' {})
            (example_run ''2024-01-01T10:00:00.000Z'' ''AAA'' ''BBB'') initial_store)"

definition store2 :: Store where
  "store2 =
     snd (saveRun byte_digest (env_of 1700000000001 ''0.9zx8cv7bn6b'' {})
            (example_run ''2024-01-02T10:00:00.000Z'' ''AAA'' ''CCC'') store1)"

definition store3 :: Store where
  "store3 =
     snd (saveRun byte_digest (env_of 1700000000002 ''0.q1w2e3r4t5s'' {})
            (example_run ''2024-01-02T10:00:00.000Z'' ''DDD'' ''EEE'') store2)"

text \<open>
  Two runs saved within the same millisecond by calls whose random strings agree in the
  seven characters that the key takes; then the first run is deleted.
\<close>

definition collided_store :: Store where
  "collided_store =
     snd (deleteRun (env_of 1700000000005 [] {}) 1
       (snd (saveRun byte_digest (env_of 1700000000000 ''0.k3j2h4gzzz8'' {})
               (example_run ''2024-01-02T10:00:00.000Z'' ''AAA'' ''CCC'') store1)))"

definition rows3 :: "RunRecord list" where
  "rows3 =
     [example_row 1 ''2024-01-01T10:00:00.000Z'' ''img_414141'' ''img_1700000000000_k3j2h4g'',
      example_row 2 ''2024-01-02T10:00:00.000Z'' ''img_414141'' ''img_1700000000001_9zx8cv7'',
      example_row 3 ''2024-01-02T10:00:00.000Z'' ''img_444444'' ''img_1700000000002_q1w2e3r'']"

text \<open>
  Runs that SQLite does not give back as they were saved: a prompt with U+0000, a
  duration that is \<^verbatim>\<open>NaN\<close>.
\<close>

definition nul_run :: RunInsert where
  "nul_run =
     (example_run ''2024-01-01T10:00:00.000Z'' ''AAA'' ''BBB'')
       \<lparr>compiledPrompt := [CHR ''a'', CHR 0x00, CHR ''b'']\<rparr>"

definition nan_run :: RunInsert where
  "nan_run =
     (example_run ''2024-01-01T10:00:00.000Z'' ''AAA'' ''BBB'')\<lparr>durationMs := Some NaN\<rparr>"

text \<open>A store in which the content key of \<open>AAA\<close> holds other bytes.\<close>

definition taken_store :: Store where
  "taken_store = initial_store\<lparr>images := [''img_414141'' \<mapsto> ''ZZZ'']\<rparr>"

section \<open>Image keys\<close>

text \<open>
  A content key is \<open>img_\<close> followed by hexadecimal digits only; a key of the
  \<^verbatim>\<open>forceNew\<close> branch has an underscore after \<open>img_\<close>. The two kinds of key never meet,
  and a \<^verbatim>\<open>forceNew\<close> key determines the clock value and the seven random characters it
  was made of.
\<close>

lemma length_hex_digits0: "length hex_digits = 16"
  by (simp add: hex_digits_def)

lemma hex_digits_nth: "n < 16 \<Longrightarrow> hex_digits ! n \<in> set hex_digits"
  by (rule nth_mem) (simp add: length_hex_digits0)

lemma zero_hex: "CHR ''0'' \<in> set hex_digits"
  by (simp add: hex_digits_def)

lemma underscore_not_hex: "CHR ''_'' \<notin> set hex_digits"
  by (simp add: hex_digits_def)

lemma distinct_hex_digits: "distinct hex_digits"
  by (simp add: hex_digits_def)

lemma length_hex_digits: "length hex_digits = 16"
  by (simp add: hex_digits_def)

lemma set_toString16: "n < 256 \<Longrightarrow> set (toString16 n) \<subseteq> set hex_digits"
  by (auto simp: toString16_def intro!: hex_digits_nth)

lemma set_padStart_hex: "set s \<subseteq> set hex_digits \<Longrightarrow> set (padStart n (CHR ''0'') s) \<subseteq> set hex_digits"
  using zero_hex by (auto simp: padStart_def)

lemma unat_byte_less: "unat (b :: byte) < 256"
  using unsigned_less [of b] by simp

lemma set_hashHex:
  "set (concat (map (\<lambda>b. padStart 2 (CHR ''0'') (toString16 (unat b))) (bs :: byte list))) \<subseteq> set hex_digits"
  by (induction bs) (use set_padStart_hex set_toString16 unat_byte_less in \<open>auto\<close>)

lemma hashImage_shape:
  "\<exists>h. hashImage digest data = ''img_'' @ h \<and> set h \<subseteq> set hex_digits \<and> length h \<le> 16"
proof -
  define hashHex where
    "hashHex = concat (map (\<lambda>b. padStart 2 (CHR ''0'') (toString16 (unat b))) (digest data))"
  have "set (take 16 hashHex) \<subseteq> set hashHex" by (rule set_take_subset)
  also have "\<dots> \<subseteq> set hex_digits" unfolding hashHex_def by (rule set_hashHex)
  finally have "set (take 16 hashHex) \<subseteq> set hex_digits" .
  moreover have "hashImage digest data = ''img_'' @ take 16 hashHex"
    by (simp add: hashImage_def hashHex_def)
  moreover have "length (take 16 hashHex) \<le> 16" by simp
  ultimately show ?thesis by blast
qed

lemma set_toString10: "set (toString10 n) \<subseteq> set hex_digits"
proof (induction n rule: toString10.induct)
  case (1 n)
  show ?case
  proof (cases "n < 10")
    case True
    then show ?thesis by (subst toString10.simps) (simp add: hex_digits_nth)
  next
    case False
    then have "n mod 10 < 16" by simp
    with False 1 show ?thesis by (subst toString10.simps) (simp add: hex_digits_nth)
  qed
qed

lemma toString10_not_Nil: "toString10 n \<noteq> []"
  by (subst toString10.simps) simp

lemma length_toString10_ge2: "\<not> n < 10 \<Longrightarrow> 2 \<le> length (toString10 n)"
  using toString10_not_Nil [of "n div 10"]
  by (subst toString10.simps) (cases "toString10 (n div 10)", auto)

lemma hex_digits_inj: "a < 16 \<Longrightarrow> b < 16 \<Longrightarrow> hex_digits ! a = hex_digits ! b \<Longrightarrow> a = b"
  using distinct_hex_digits length_hex_digits by (simp add: nth_eq_iff_index_eq)

lemma toString10_inj: "toString10 n = toString10 m \<Longrightarrow> n = m"
proof (induction n arbitrary: m rule: toString10.induct)
  case (1 n)
  show ?case
  proof (cases "n < 10")
    case True
    then have n1: "toString10 n = [hex_digits ! n]" by (subst toString10.simps) simp
    show ?thesis
    proof (cases "m < 10")
      case True
      then have "toString10 m = [hex_digits ! m]" by (subst toString10.simps) simp
      with n1 "1.prems" have "hex_digits ! n = hex_digits ! m" by simp
      with True \<open>n < 10\<close> show ?thesis by (intro hex_digits_inj) auto
    next
      case False
      from length_toString10_ge2 [OF this] n1 "1.prems" show ?thesis by simp
    qed
  next
    case False
    then have n2: "toString10 n = toString10 (n div 10) @ [hex_digits ! (n mod 10)]"
      by (subst toString10.simps) simp
    show ?thesis
    proof (cases "m < 10")
      case True
      then have "toString10 m = [hex_digits ! m]" by (subst toString10.simps) simp
      with length_toString10_ge2 [OF False] "1.prems" show ?thesis by simp
    next
      case m: False
      then have "toString10 m = toString10 (m div 10) @ [hex_digits ! (m mod 10)]"
        by (subst toString10.simps) simp
      with n2 "1.prems" have a: "toString10 (n div 10) = toString10 (m div 10)"
        and b: "hex_digits ! (n mod 10) = hex_digits ! (m mod 10)" by simp_all
      from "1.IH" [OF False a] have "n div 10 = m div 10" .
      moreover have "n mod 10 = m mod 10" by (rule hex_digits_inj [OF _ _ b]) simp_all
      ultimately show ?thesis by (metis div_mult_mod_eq)
    qed
  qed
qed

lemma split_at_underscore:
  assumes "CHR ''_'' \<notin> set a" "CHR ''_'' \<notin> set b" "a @ CHR ''_'' # x = b @ CHR ''_'' # y"
  shows "a = b \<and> x = y"
  using assms
proof (induction a arbitrary: b)
  case Nil
  then show ?case by (cases b) auto
next
  case (Cons c a)
  then show ?case by (cases b) auto
qed

lemma newImageId_eq_iff:
  "newImageId e1 = newImageId e2 \<longleftrightarrow>
   date_now e1 = date_now e2 \<and> take 7 (drop 2 (math_random e1)) = take 7 (drop 2 (math_random e2))"
proof
  assume eq: "newImageId e1 = newImageId e2"
  have u: "CHR ''_'' \<notin> set (toString10 n)" for n
    using set_toString10 [of n] underscore_not_hex by blast
  from eq have "toString10 (date_now e1) @ CHR ''_'' # take 7 (drop 2 (math_random e1)) =
                toString10 (date_now e2) @ CHR ''_'' # take 7 (drop 2 (math_random e2))"
    by (simp add: newImageId_def)
  from split_at_underscore [OF u u this]
  show "date_now e1 = date_now e2 \<and> take 7 (drop 2 (math_random e1)) = take 7 (drop 2 (math_random e2))"
    using toString10_inj by blast
next
  assume "date_now e1 = date_now e2 \<and> take 7 (drop 2 (math_random e1)) = take 7 (drop 2 (math_random e2))"
  then show "newImageId e1 = newImageId e2" by (simp add: newImageId_def)
qed

lemma newImageId_not_hashImage: "newImageId env \<noteq> hashImage digest data"
proof
  assume eq: "newImageId env = hashImage digest data"
  obtain h where h: "hashImage digest data = ''img_'' @ h" "set h \<subseteq> set hex_digits"
    using hashImage_shape by blast
  from eq h have "CHR ''_'' \<in> set h" by (auto simp: newImageId_def)
  with h underscore_not_hex show False by blast
qed

section \<open>The sorter\<close>









section \<open>Promises, image helpers and \<open>both\<close>\<close>

lemma failure_not_Resolved [simp]: "failure env c \<noteq> Resolved x"
  by (simp add: failure_def)

lemma Resolved_not_failure [simp]: "Resolved x \<noteq> failure env c"
  by (simp add: failure_def)

lemma await_Resolved [simp]: "await (Resolved a, s) k = k a s"
  and await_Rejected [simp]: "await (Rejected e, s) k = (Rejected e, s)"
  and await_Pending [simp]: "await (Pending, s) k = (Pending, s)"
  by (simp_all add: await_def)

lemma await_failure [simp]: "await (failure env c, s) k = (failure env c, s)"
  by (simp add: failure_def)

lemma await_pair: "await p k = await (fst p, snd p) k"
  by simp

lemma settle_all_Resolved_iff:
  "settle_all sf a b = Resolved x \<longleftrightarrow> (\<exists>u v. a = Resolved u \<and> b = Resolved v \<and> x = (u, v))"
  by (cases a; cases b) auto

lemma saveImageDeduped_unique:
  "saveImageDeduped digest env data True s =
     (if PutImage (newImageId env) \<in> faults env
      then (failure env (PutImage (newImageId env)), s)
      else (Resolved (newImageId env), s\<lparr>images := (images s)(newImageId env \<mapsto> data)\<rparr>))"
  by (simp add: saveImageDeduped_def Let_def)

lemma saveImageDeduped_dedup:
  "saveImageDeduped digest env data False s =
     (if ImageExists (hashImage digest data) \<in> faults env
      then (Rejected (IDBError (ImageExists (hashImage digest data))), s)
      else if images s (hashImage digest data) \<noteq> None then (Resolved (hashImage digest data), s)
      else if PutImage (hashImage digest data) \<in> faults env
      then (failure env (PutImage (hashImage digest data)), s)
      else (Resolved (hashImage digest data),
            s\<lparr>images := (images s)(hashImage digest data \<mapsto> data)\<rparr>))"
  by (simp add: saveImageDeduped_def imageExists_def Let_def)

lemma saveImageDeduped_frame:
  "db (snd (saveImageDeduped digest env data forceNew s)) = db s"
  "sqlite (snd (saveImageDeduped digest env data forceNew s)) = sqlite s"
  by (cases forceNew; simp add: saveImageDeduped_unique saveImageDeduped_dedup)+

lemma saveImageDeduped_unique_fst:
  "fst (saveImageDeduped digest env data True s) = fst (saveImageDeduped digest env data True t)"
  by (simp add: saveImageDeduped_unique)

lemma saveImageDeduped_mono:
  "images s k \<noteq> None \<Longrightarrow> images (snd (saveImageDeduped digest env data forceNew s)) k \<noteq> None"
  by (cases forceNew) (simp_all add: saveImageDeduped_unique saveImageDeduped_dedup)

lemma both_fst:
  "fst (both env f g s) = settle_all (second_first env) (fst (f s)) (fst (g (snd (f s))))"
  by (simp add: both_def Let_def case_prod_beta)

lemma both_snd: "snd (both env f g s) = snd (g (snd (f s)))"
  by (simp add: both_def Let_def case_prod_beta)

lemma persistDatabase_eq:
  "persistDatabase env s =
     (if SaveToIndexedDB \<in> faults env then (failure env SaveToIndexedDB, s)
      else (Resolved (), s\<lparr>sqlite := Some (db s)\<rparr>))"
  by (simp add: persistDatabase_def saveToIndexedDB_def)

lemma persistDatabase_frame:
  "db (snd (persistDatabase env s)) = db s"
  "images (snd (persistDatabase env s)) = images s"
  by (simp_all add: persistDatabase_eq)

lemma deleteImage_eq:
  "deleteImage env k s =
     (if DeleteImage k \<in> faults env then (failure env (DeleteImage k), s)
      else (Resolved (), s\<lparr>images := (images s)(k := None)\<rparr>))"
  by (simp add: deleteImage_def)

section \<open>\<^verbatim>\<open>saveRun\<close>, step by step\<close>

text \<open>\<^verbatim>\<open>saveRun\<close> by the result of its two image writes.\<close>

lemma saveRun_eq:
  "saveRun digest env run s =
     (let w = both env (saveImageDeduped digest env (inputImage run) False)
                       (saveImageDeduped digest env (outputImage run) True) s
      in case fst w of
           Resolved (inputId, outputId) \<Rightarrow>
             (if SaveToIndexedDB \<in> faults env
              then (failure env SaveToIndexedDB,
                    (snd w)\<lparr>db := snd (sql_insert run inputId outputId (db (snd w)))\<rparr>)
              else (Resolved (last_rowid (db (snd w)) + 1),
                    (snd w)\<lparr>db := snd (sql_insert run inputId outputId (db (snd w))),
                       sqlite := Some (snd (sql_insert run inputId outputId (db (snd w))))\<rparr>))
         | Rejected e \<Rightarrow> (Rejected e, snd w)
         | Pending \<Rightarrow> (Pending, snd w))"
proof -
  let ?w = "both env (saveImageDeduped digest env (inputImage run) False)
                     (saveImageDeduped digest env (outputImage run) True) s"
  show ?thesis
    by (cases "fst ?w")
       (auto simp: saveRun_def Let_def await_pair [of ?w] sql_insert_def persistDatabase_eq
          split: prod.splits)
qed

lemma insert_values_fields:
  "runId (insert_values run rowid k k') = rowid"
  "inputImageId (insert_values run rowid k k') = k"
  "outputImageId (insert_values run rowid k k') = k'"
  by (simp_all add: insert_values_def)

lemma sql_insert_eq:
  "sql_insert run k k' d =
     (last_rowid d + 1,
      d\<lparr>runs := runs d @ [insert_values run (last_rowid d + 1) k k'],
        sqlite_sequence := last_rowid d + 1\<rparr>)"
  by (simp add: sql_insert_def Let_def)

text \<open>\<^verbatim>\<open>saveRun\<close> when both image writes are resolved, and when they are not.\<close>

lemma saveRun_written:
  assumes "\<exists>k. fst (saveImageDeduped digest env (inputImage run) False s) = Resolved k"
      and "\<exists>k. fst (saveImageDeduped digest env (outputImage run) True s) = Resolved k"
  shows "saveRun digest env run s =
     (let k = hashImage digest (inputImage run); k' = newImageId env;
          imgs = (if images s k = None then (images s)(k \<mapsto> inputImage run) else images s)
                   (k' \<mapsto> outputImage run);
          d = (db s)\<lparr>runs := runs (db s) @ [insert_values run (last_rowid (db s) + 1) k k'],
                     sqlite_sequence := last_rowid (db s) + 1\<rparr>
      in if SaveToIndexedDB \<in> faults env
         then (failure env SaveToIndexedDB, \<lparr>db = d, images = imgs, sqlite = sqlite s\<rparr>)
         else (Resolved (last_rowid (db s) + 1), \<lparr>db = d, images = imgs, sqlite = Some d\<rparr>))"
  using assms
  by (simp add: saveRun_eq both_def saveImageDeduped_unique saveImageDeduped_dedup
      Let_def case_prod_beta sql_insert_eq split: if_splits)

lemma saveRun_not_written:
  assumes "(\<nexists>k. fst (saveImageDeduped digest env (inputImage run) False s) = Resolved k) \<or>
           (\<nexists>k. fst (saveImageDeduped digest env (outputImage run) True s) = Resolved k)"
  shows "\<nexists>i. fst (saveRun digest env run s) = Resolved i"
    and "snd (saveRun digest env run s) =
         snd (saveImageDeduped digest env (outputImage run) True
                (snd (saveImageDeduped digest env (inputImage run) False s)))"
    and "(fst (saveRun digest env run s) = Pending) =
         (settle_all (second_first env)
           (fst (saveImageDeduped digest env (inputImage run) False s))
           (fst (saveImageDeduped digest env (outputImage run) True s)) = Pending)"
    and "(fst (saveRun digest env run s) = Rejected e) =
         (settle_all (second_first env)
           (fst (saveImageDeduped digest env (inputImage run) False s))
           (fst (saveImageDeduped digest env (outputImage run) True s)) = Rejected e)"
proof -
  let ?f = "saveImageDeduped digest env (inputImage run) False"
  let ?g = "saveImageDeduped digest env (outputImage run) True"
  have g: "fst (?g (snd (?f s))) = fst (?g s)" by (rule saveImageDeduped_unique_fst)
  have w: "fst (both env ?f ?g s) = settle_all (second_first env) (fst (?f s)) (fst (?g s))"
    by (simp add: both_fst g)
  from assms have n: "\<nexists>x. fst (both env ?f ?g s) = Resolved x"
    unfolding w settle_all_Resolved_iff by blast
  then show "\<nexists>i. fst (saveRun digest env run s) = Resolved i"
    by (cases "fst (both env ?f ?g s)") (auto simp: saveRun_eq Let_def)
  from n show "snd (saveRun digest env run s) = snd (?g (snd (?f s)))"
    by (cases "fst (both env ?f ?g s)") (auto simp: saveRun_eq Let_def both_snd)
  from n show "(fst (saveRun digest env run s) = Pending) =
      (settle_all (second_first env) (fst (?f s)) (fst (?g s)) = Pending)"
    unfolding w [symmetric]
    by (cases "fst (both env ?f ?g s)") (auto simp: saveRun_eq Let_def)
  from n show "(fst (saveRun digest env run s) = Rejected e) =
      (settle_all (second_first env) (fst (?f s)) (fst (?g s)) = Rejected e)"
    unfolding w [symmetric]
    by (cases "fst (both env ?f ?g s)") (auto simp: saveRun_eq Let_def)
qed

lemma saveRun_outcome:
  fixes digest env run s
  defines "s' \<equiv> snd (saveRun digest env run s)"
      and "k \<equiv> hashImage digest (inputImage run)"
      and "k' \<equiv> newImageId env"
  shows "(db s' = db s \<or>
          runs (db s') = runs (db s) @ [insert_values run (last_rowid (db s) + 1) k k'] \<and>
          images s' k \<noteq> None \<and> images s' k' \<noteq> None) \<and>
         (\<forall>x. images s x \<noteq> None \<longrightarrow> images s' x \<noteq> None)"
proof (cases "(\<exists>k. fst (saveImageDeduped digest env (inputImage run) False s) = Resolved k) \<and>
              (\<exists>k. fst (saveImageDeduped digest env (outputImage run) True s) = Resolved k)")
  case False
  then have eq: "s' = snd (saveImageDeduped digest env (outputImage run) True
                (snd (saveImageDeduped digest env (inputImage run) False s)))"
    unfolding s'_def by (intro saveRun_not_written(2)) blast
  have "db s' = db s" unfolding eq by (simp add: saveImageDeduped_frame)
  moreover have "images s' x \<noteq> None" if "images s x \<noteq> None" for x
    unfolding eq using that by (intro saveImageDeduped_mono)
  ultimately show ?thesis by blast
next
  case True
  then have "\<exists>k. fst (saveImageDeduped digest env (inputImage run) False s) = Resolved k"
    and "\<exists>k. fst (saveImageDeduped digest env (outputImage run) True s) = Resolved k"
    by simp_all
  from saveRun_written [OF this] show ?thesis
    by (simp add: s'_def k_def k'_def Let_def)
qed

section \<open>Lookup and comment update\<close>

lemma column_row_keys [simp]:
  "runId (column_row r) = runId r"
  "inputImageId (column_row r) = inputImageId r"
  "outputImageId (column_row r) = outputImageId r"
  by (simp_all add: column_row_def)

lemma column_text_plain: "plain_text t \<Longrightarrow> column_text t = t"
  by (auto simp: column_text_def plain_text_def takeWhile_eq_all_conv)

lemma getRunById_None_iff: "getRunById i s = None \<longleftrightarrow> (\<forall>r \<in> set (runs (db s)). runId r \<noteq> i)"
  by (auto simp: getRunById_def sql_select_by_id_def find_None_iff)

lemma sql_select_by_id_Some:
  "sql_select_by_id i d = Some r \<Longrightarrow> r \<in> set (runs d) \<and> runId r = i"
  by (auto simp: sql_select_by_id_def find_Some_iff)

lemma find_first:
  "\<forall>r \<in> set xs. \<not> P r \<Longrightarrow> P x \<Longrightarrow> find P (xs @ x # ys) = Some x"
  by (induction xs) auto

lemma sql_select_by_id_first:
  "runs d = xs @ run # ys \<Longrightarrow> runId run = i \<Longrightarrow> \<forall>r \<in> set xs. runId r \<noteq> i \<Longrightarrow>
   sql_select_by_id i d = Some run"
  by (simp add: sql_select_by_id_def find_first)

lemma runs_updateRunComment:
  "runs (db (snd (updateRunComment env i comment s))) =
     map (\<lambda>r. if runId r = i then r\<lparr>humanComment := Some comment\<rparr> else r) (runs (db s))"
  by (simp add: updateRunComment_def persistDatabase_frame sql_update_comment_def)

lemma find_map_update:
  "find (\<lambda>r. runId r = i) (map (\<lambda>r. if runId r = i then r\<lparr>humanComment := c\<rparr> else r) rows) =
   map_option (\<lambda>r. r\<lparr>humanComment := c\<rparr>) (find (\<lambda>r. runId r = i) rows)"
  by (induction rows) auto

lemma find_map_update_other:
  "j \<noteq> i \<Longrightarrow>
   find (\<lambda>r. runId r = j) (map (\<lambda>r. if runId r = i then r\<lparr>humanComment := c\<rparr> else r) rows) =
   find (\<lambda>r. runId r = j) rows"
  by (induction rows) auto

lemma column_row_comment:
  "column_row (r\<lparr>humanComment := Some c\<rparr>) = (column_row r)\<lparr>humanComment := Some (column_text c)\<rparr>"
  by (simp add: column_row_def)

section \<open>\<^verbatim>\<open>deleteRun\<close>, step by step\<close>

lemma deleteRun_None: "getRunById i s = None \<Longrightarrow> deleteRun env i s = (Resolved (), s)"
  by (simp add: deleteRun_def)

lemma sql_delete_absent: "getRunById i s = None \<Longrightarrow> sql_delete i (db s) = db s"
  by (simp add: getRunById_None_iff sql_delete_def)

lemma snd_await_const [simp]: "snd (await (p, s) (\<lambda>_. Pair q)) = s"
  by (cases p) simp_all

text \<open>The store after \<^verbatim>\<open>deleteRun\<close> on a row, whatever is rejected or left pending.\<close>

lemma deleteRun_store:
  assumes "sql_select_by_id i (db s) = Some run"
  shows "snd (deleteRun env i s) =
     (if SaveToIndexedDB \<in> faults env then s\<lparr>db := sql_delete i (db s)\<rparr>
      else \<lparr>db = sql_delete i (db s),
            images = (\<lambda>k.
              if k = outputImageId run \<and> DeleteImage (outputImageId run) \<notin> faults env then None
              else if k = inputImageId run \<and> DeleteImage (inputImageId run) \<notin> faults env \<and>
                      sql_count_input_usage (inputImageId run) i (db s) = 0 then None
              else images s k),
            sqlite = Some (sql_delete i (db s))\<rparr>)"
  using assms
  by (auto simp: deleteRun_def getRunById_def Let_def persistDatabase_eq both_def deleteImage_eq
      case_prod_beta fun_eq_iff)

lemma deleteRun_db: "db (snd (deleteRun env i s)) = sql_delete i (db s)"
proof (cases "sql_select_by_id i (db s)")
  case None
  then have "getRunById i s = None" by (simp add: getRunById_def)
  then show ?thesis by (simp add: deleteRun_None sql_delete_absent)
next
  case (Some run)
  then show ?thesis by (simp add: deleteRun_store)
qed

lemma deleteRun_images:
  assumes "sql_select_by_id i (db s) = Some run"
  shows "images (snd (deleteRun env i s)) k =
     (if SaveToIndexedDB \<in> faults env then images s k
      else if k = outputImageId run \<and> DeleteImage (outputImageId run) \<notin> faults env then None
      else if k = inputImageId run \<and> DeleteImage (inputImageId run) \<notin> faults env \<and>
              sql_count_input_usage (inputImageId run) i (db s) = 0 then None
      else images s k)"
  by (simp add: deleteRun_store [OF assms])

lemma deleteRun_sqlite:
  "sqlite (snd (deleteRun env i s)) =
     (if getRunById i s = None \<or> SaveToIndexedDB \<in> faults env then sqlite s
      else Some (sql_delete i (db s)))"
proof (cases "sql_select_by_id i (db s)")
  case None
  then have "getRunById i s = None" by (simp add: getRunById_def)
  then show ?thesis by (simp add: deleteRun_None)
next
  case (Some run)
  then show ?thesis by (simp add: deleteRun_store getRunById_def)
qed

text \<open>The result of \<^verbatim>\<open>deleteRun\<close> on a row.\<close>

lemma deleteRun_result:
  assumes "sql_select_by_id i (db s) = Some run"
  shows "fst (deleteRun env i s) =
     (if SaveToIndexedDB \<in> faults env then failure env SaveToIndexedDB
      else if sql_count_input_usage (inputImageId run) i (db s) = 0 then
        (case settle_all (second_first env)
                (if DeleteImage (outputImageId run) \<in> faults env
                 then failure env (DeleteImage (outputImageId run)) else Resolved ())
                (if DeleteImage (inputImageId run) \<in> faults env
                 then failure env (DeleteImage (inputImageId run)) else Resolved ()) of
           Resolved _ \<Rightarrow> Resolved () | Rejected e \<Rightarrow> Rejected e | Pending \<Rightarrow> Pending)
      else if DeleteImage (outputImageId run) \<in> faults env
        then failure env (DeleteImage (outputImageId run))
      else Resolved ())"
  using assms
  by (auto simp: deleteRun_def getRunById_def Let_def persistDatabase_eq both_def deleteImage_eq
      case_prod_beta await_def failure_def split: promise.splits)

lemma deleteRun_Resolved_iff:
  assumes "sql_select_by_id i (db s) = Some run"
  shows "fst (deleteRun env i s) = Resolved () \<longleftrightarrow>
     SaveToIndexedDB \<notin> faults env \<and> DeleteImage (outputImageId run) \<notin> faults env \<and>
     (sql_count_input_usage (inputImageId run) i (db s) = 0 \<longrightarrow>
        DeleteImage (inputImageId run) \<notin> faults env)"
  by (auto simp: deleteRun_result [OF assms] failure_def split: promise.splits)

lemma find_filter_other:
  "find (\<lambda>r. runId r = j) (filter (\<lambda>r. runId r \<noteq> i) rows) =
     (if j = i then None else find (\<lambda>r. runId r = j) rows)"
  by (induction rows) auto

lemma getRunById_deleteRun:
  "getRunById j (snd (deleteRun env i s)) = (if j = i then None else getRunById j s)"
  by (simp add: getRunById_def deleteRun_db sql_select_by_id_def sql_delete_def find_filter_other)

section \<open>The invariants of a session\<close>

lemma content_key_hashImage: "content_key (hashImage digest data)"
proof -
  obtain h where "hashImage digest data = ''img_'' @ h" "set h \<subseteq> set hex_digits"
    using hashImage_shape by blast
  with underscore_not_hex show ?thesis by (auto simp: content_key_def)
qed

lemma not_content_key_newImageId: "\<not> content_key (newImageId env)"
  by (simp add: content_key_def newImageId_def)

lemma fold_max_ge: "(a::int) \<le> fold max xs a"
  by (induction xs arbitrary: a) (auto intro: order_trans [OF max.cobounded2])

lemma fold_max_mem: "x \<in> set xs \<Longrightarrow> (x::int) \<le> fold max xs a"
proof (induction xs arbitrary: a)
  case Nil
  then show ?case by simp
next
  case (Cons y ys)
  show ?case
  proof (cases "x = y")
    case True
    have "x \<le> max x a" by simp
    also have "\<dots> \<le> fold max ys (max x a)" by (rule fold_max_ge)
    finally show ?thesis using True by simp
  next
    case False
    with Cons show ?thesis by simp
  qed
qed

lemma runId_le_last_rowid: "r \<in> set (runs d) \<Longrightarrow> runId r \<le> last_rowid d"
  unfolding last_rowid_def by (rule fold_max_mem) simp

lemma keys_separate_saveRun:
  assumes "keys_separate s"
  shows "keys_separate (snd (saveRun digest env run s))"
  using saveRun_outcome [of digest env run s] assms
  by (auto simp: keys_separate_def insert_values_fields content_key_hashImage
      not_content_key_newImageId)

lemma keys_separate_updateRunComment:
  "keys_separate s \<Longrightarrow> keys_separate (snd (updateRunComment env i comment s))"
  by (auto simp: keys_separate_def runs_updateRunComment)

lemma keys_separate_deleteRun:
  "keys_separate s \<Longrightarrow> keys_separate (snd (deleteRun env i s))"
  by (auto simp: keys_separate_def deleteRun_db sql_delete_def)

lemma reachable_keys_separate: "reachable digest s \<Longrightarrow> keys_separate s"
proof (induction rule: reachable.induct)
  case reach_init
  show ?case by (simp add: keys_separate_def initial_store_def)
next
  case (reach_saveRun s env run)
  then show ?case by (simp add: keys_separate_saveRun)
next
  case (reach_updateRunComment s env i comment)
  then show ?case by (simp add: keys_separate_updateRunComment)
next
  case (reach_deleteRun s env i)
  then show ?case by (simp add: keys_separate_deleteRun)
qed

lemma inputs_exist_saveRun:
  assumes "inputs_exist s"
  shows "inputs_exist (snd (saveRun digest env run s))"
  using saveRun_outcome [of digest env run s] assms
  by (auto simp: inputs_exist_def insert_values_fields)

lemma inputs_exist_updateRunComment:
  assumes "inputs_exist s"
  shows "inputs_exist (snd (updateRunComment env i comment s))"
proof -
  have "images (snd (updateRunComment env i comment s)) = images s"
    by (simp add: updateRunComment_def persistDatabase_frame)
  with assms show ?thesis
    by (auto simp: inputs_exist_def runs_updateRunComment)
qed

text \<open>
  \<^verbatim>\<open>deleteRun\<close> keeps the input image of every other row: the input key of another row
  is no output key, and when it is the input key of the deleted row the count is not
  zero.
\<close>

lemma deleteRun_keeps_input:
  assumes ks: "keys_separate s"
      and r: "r \<in> set (runs (db s))" "runId r \<noteq> i"
  shows "images (snd (deleteRun env i s)) (inputImageId r) = images s (inputImageId r)"
proof (cases "sql_select_by_id i (db s)")
  case None
  then have "getRunById i s = None" by (simp add: getRunById_def)
  then show ?thesis by (simp add: deleteRun_None)
next
  case (Some run)
  from sql_select_by_id_Some [OF Some] have run: "run \<in> set (runs (db s))" by simp
  from ks r(1) run have a: "inputImageId r \<noteq> outputImageId run"
    unfolding keys_separate_def by metis
  have e: "sql_count_input_usage (inputImageId run) i (db s) \<noteq> 0"
    if "inputImageId r = inputImageId run"
    using that r by (auto simp: sql_count_input_usage_def filter_empty_conv)
  from a e show ?thesis by (auto simp: deleteRun_images [OF Some])
qed

lemma inputs_exist_deleteRun:
  assumes "keys_separate s" "inputs_exist s"
  shows "inputs_exist (snd (deleteRun env i s))"
  using assms
  by (auto simp: inputs_exist_def deleteRun_db sql_delete_def deleteRun_keeps_input)

lemma reachable_inputs_exist: "reachable digest s \<Longrightarrow> inputs_exist s"
proof (induction rule: reachable.induct)
  case reach_init
  show ?case by (simp add: inputs_exist_def initial_store_def)
next
  case (reach_saveRun s env run)
  then show ?case by (simp add: inputs_exist_saveRun)
next
  case (reach_updateRunComment s env i comment)
  then show ?case by (simp add: inputs_exist_updateRunComment)
next
  case (reach_deleteRun s env i)
  then show ?case by (simp add: inputs_exist_deleteRun reachable_keys_separate)
qed

section \<open>Reading a saved run back\<close>

lemma find_append_new:
  "\<forall>r \<in> set rows. runId r \<noteq> i \<Longrightarrow> runId row = i \<Longrightarrow>
   find (\<lambda>r. runId r = i) (rows @ [row]) = Some row"
  by (induction rows) auto

lemma getRunById_saved:
  assumes "runs (db s') = runs (db s) @ [row]" "runId row = last_rowid (db s) + 1"
  shows "getRunById (last_rowid (db s) + 1) s' = Some (column_row row)"
proof -
  have "\<forall>r \<in> set (runs (db s)). runId r \<noteq> last_rowid (db s) + 1"
    using runId_le_last_rowid [of _ "db s"] by fastforce
  with assms show ?thesis
    by (simp add: getRunById_def sql_select_by_id_def find_append_new)
qed

lemma loadImagesForRun_eq:
  assumes "GetImage (inputImageId row) \<notin> faults env" "GetImage (outputImageId row) \<notin> faults env"
  shows "loadImagesForRun env row s =
     Resolved (case images s (inputImageId row) of None \<Rightarrow> [] | Some v \<Rightarrow> v,
               case images s (outputImageId row) of None \<Rightarrow> [] | Some v \<Rightarrow> v)"
  using assms by (simp add: loadImagesForRun_def loadImage_def)

lemma bind_number_plain: "plain_number v \<Longrightarrow> bind_number v = v"
  by (simp add: bind_number_def plain_number_def)

lemma same_metadata_plain:
  "plain_run run \<Longrightarrow> same_metadata run (column_row (insert_values run i k k'))"
  by (auto simp: plain_run_def same_metadata_def column_row_def insert_values_def
      column_text_plain bind_number_plain split: option.splits)

text \<open>
  The content key keeps 16 hexadecimal digits of the digest: whatever the digest is, two
  different images have the same content key.
\<close>

lemma hashImage_range:
  "range (hashImage digest) \<subseteq>
     (\<lambda>h. ''img_'' @ h) ` {h. set h \<subseteq> set hex_digits \<and> length h \<le> 16}"
proof
  fix k assume "k \<in> range (hashImage digest)"
  then obtain data where k: "k = hashImage digest data" by blast
  obtain h where h: "hashImage digest data = ''img_'' @ h" "set h \<subseteq> set hex_digits"
    "length h \<le> 16"
    using hashImage_shape by blast
  with k show "k \<in> (\<lambda>h. ''img_'' @ h) ` {h. set h \<subseteq> set hex_digits \<and> length h \<le> 16}"
    by blast
qed

lemma hashImage_collision: "\<exists>a b. a \<noteq> b \<and> hashImage digest a = hashImage digest b"
proof (rule ccontr)
  assume "\<not> ?thesis"
  then have "inj (hashImage digest)" by (auto simp: inj_on_def)
  moreover have "finite (range (hashImage digest))"
    by (rule finite_subset [OF hashImage_range])
       (intro finite_imageI finite_lists_length_le, simp)
  ultimately have "finite (UNIV :: string set)" using finite_imageD by blast
  then show False by (simp add: infinite_UNIV_listI)
qed

section \<open>The example stores\<close>

lemma hashImage_AAA: "hashImage byte_digest ''AAA'' = ''img_414141''"
  by (simp add: hashImage_def byte_digest_def padStart_def toString16_def hex_digits_def)

lemma hashImage_DDD: "hashImage byte_digest ''DDD'' = ''img_444444''"
  by (simp add: hashImage_def byte_digest_def padStart_def toString16_def hex_digits_def)

lemma newImageId_example:
  "newImageId (env_of 1700000000000 ''0.k3j2h4g5f6d'' fs) = ''img_1700000000000_k3j2h4g''"
  "newImageId (env_of 1700000000001 ''0.9zx8cv7bn6b'' fs) = ''img_1700000000001_9zx8cv7''"
  "newImageId (env_of 1700000000002 ''0.q1w2e3r4t5s'' fs) = ''img_1700000000002_q1w2e3r''"
  "newImageId (env_of 1700000000000 ''0.k3j2h4gzzz8'' fs) = ''img_1700000000000_k3j2h4g''"
  "newImageId (env_aborting 1700000000000 ''0.k3j2h4g5f6d'' fs) = ''img_1700000000000_k3j2h4g''"
  by (simp_all add: env_of_def env_aborting_def newImageId_def toString10.simps hex_digits_def)

lemma env_of_simps:
  "faults (env_of now rnd fs) = fs" "silent (env_of now rnd fs) = {}"
  "second_first (env_of now rnd fs) = False"
  "faults (env_aborting now rnd fs) = fs" "silent (env_aborting now rnd fs) = fs"
  "second_first (env_aborting now rnd fs) = False"
  by (simp_all add: env_of_def env_aborting_def)

lemma example_run_images:
  "inputImage (example_run t inp out) = inp" "outputImage (example_run t inp out) = out"
  by (simp_all add: example_run_def)

lemma example_row_keys:
  "runId (example_row i t k k') = i" "inputImageId (example_row i t k k') = k"
  "outputImageId (example_row i t k k') = k'"
  by (simp_all add: example_row_def)

lemma insert_values_example:
  "insert_values (example_run t inp out) i k k' = example_row i t k k'"
  by (simp add: insert_values_def example_run_def example_row_def bind_number_def)

lemma saveRun_example:
  "saveRun digest (env_of now rnd {}) (example_run t inp out) s =
     (let k = hashImage digest inp; k' = newImageId (env_of now rnd {});
          i = last_rowid (db s) + 1;
          d = \<lparr>runs = runs (db s) @ [example_row i t k k'], sqlite_sequence = i\<rparr>
      in (Resolved i,
          \<lparr>db = d,
           images = (if images s k = None then (images s)(k \<mapsto> inp, k' \<mapsto> out)
                     else (images s)(k' \<mapsto> out)),
           sqlite = Some d\<rparr>))"
proof -
  let ?env = "env_of now rnd {}"
  let ?run = "example_run t inp out"
  have "\<exists>k. fst (saveImageDeduped digest ?env (inputImage ?run) False s) = Resolved k"
    "\<exists>k. fst (saveImageDeduped digest ?env (outputImage ?run) True s) = Resolved k"
    by (simp_all add: saveImageDeduped_dedup saveImageDeduped_unique env_of_simps)
  from saveRun_written [OF this] show ?thesis
    by (simp add: Let_def env_of_simps example_run_images insert_values_example)
qed

lemma column_row_example [simp]:
  "plain_text t \<Longrightarrow> column_row (example_row i t k k') = example_row i t k k'"
  by (auto simp: column_row_def example_row_def column_text_def plain_text_def
      takeWhile_eq_all_conv)

lemma store1_eq:
  "store1 =
     \<lparr>db = \<lparr>runs = take 1 rows3, sqlite_sequence = 1\<rparr>,
      images = [''img_414141'' \<mapsto> ''AAA'', ''img_1700000000000_k3j2h4g'' \<mapsto> ''BBB''],
      sqlite = Some \<lparr>runs = take 1 rows3, sqlite_sequence = 1\<rparr>\<rparr>"
  by (simp add: store1_def saveRun_example hashImage_AAA newImageId_example Let_def
      initial_store_def last_rowid_def rows3_def)

lemma store2_eq:
  "store2 =
     \<lparr>db = \<lparr>runs = take 2 rows3, sqlite_sequence = 2\<rparr>,
      images = [''img_414141'' \<mapsto> ''AAA'', ''img_1700000000000_k3j2h4g'' \<mapsto> ''BBB'',
                ''img_1700000000001_9zx8cv7'' \<mapsto> ''CCC''],
      sqlite = Some \<lparr>runs = take 2 rows3, sqlite_sequence = 2\<rparr>\<rparr>"
  by (simp add: store2_def store1_eq saveRun_example hashImage_AAA newImageId_example
      Let_def last_rowid_def rows3_def example_row_def)

lemma store3_eq:
  "store3 =
     \<lparr>db = \<lparr>runs = rows3, sqlite_sequence = 3\<rparr>,
      images = [''img_414141'' \<mapsto> ''AAA'', ''img_1700000000000_k3j2h4g'' \<mapsto> ''BBB'',
                ''img_1700000000001_9zx8cv7'' \<mapsto> ''CCC'', ''img_444444'' \<mapsto> ''DDD'',
                ''img_1700000000002_q1w2e3r'' \<mapsto> ''EEE''],
      sqlite = Some \<lparr>runs = rows3, sqlite_sequence = 3\<rparr>\<rparr>"
  by (simp add: store3_def store2_eq saveRun_example hashImage_DDD newImageId_example
      Let_def last_rowid_def rows3_def example_row_def)


lemma reachable_stores:
  "reachable byte_digest store1" "reachable byte_digest store2" "reachable byte_digest store3"
proof -
  show 1: "reachable byte_digest store1"
    unfolding store1_def by (intro reach_saveRun reach_init)
  show 2: "reachable byte_digest store2"
    unfolding store2_def using 1 by (intro reach_saveRun)
  show "reachable byte_digest store3"
    unfolding store3_def using 2 by (intro reach_saveRun)
qed

lemma sql_select_store3:
  "sql_select_by_id 1 (db store3) =
     Some (example_row 1 ''2024-01-01T10:00:00.000Z'' ''img_414141'' ''img_1700000000000_k3j2h4g'')"
  "sql_select_by_id 2 (db store3) =
     Some (example_row 2 ''2024-01-02T10:00:00.000Z'' ''img_414141'' ''img_1700000000001_9zx8cv7'')"
  "sql_select_by_id 3 (db store3) =
     Some (example_row 3 ''2024-01-02T10:00:00.000Z'' ''img_444444'' ''img_1700000000002_q1w2e3r'')"
  "sql_select_by_id 9 (db store3) = None"
  by (simp_all add: sql_select_by_id_def store3_eq rows3_def example_row_keys)

lemma getRunById_store3:
  "getRunById 1 store3 =
     Some (example_row 1 ''2024-01-01T10:00:00.000Z'' ''img_414141'' ''img_1700000000000_k3j2h4g'')"
  "getRunById 2 store3 =
     Some (example_row 2 ''2024-01-02T10:00:00.000Z'' ''img_414141'' ''img_1700000000001_9zx8cv7'')"
  "getRunById 3 store3 =
     Some (example_row 3 ''2024-01-02T10:00:00.000Z'' ''img_444444'' ''img_1700000000002_q1w2e3r'')"
  "getRunById 9 store3 = None"
  by (simp_all add: getRunById_def sql_select_store3 plain_text_def)

lemma collided_store_eq:
  "collided_store =
     \<lparr>db = \<lparr>runs = [example_row 2 ''2024-01-02T10:00:00.000Z'' ''img_414141''
                         ''img_1700000000000_k3j2h4g''],
            sqlite_sequence = 2\<rparr>,
      images = [''img_414141'' \<mapsto> ''AAA''],
      sqlite = Some \<lparr>runs = [example_row 2 ''2024-01-02T10:00:00.000Z'' ''img_414141''
                         ''img_1700000000000_k3j2h4g''],
            sqlite_sequence = 2\<rparr>\<rparr>"
  by (simp add: collided_store_def store1_eq saveRun_example hashImage_AAA newImageId_example
      Let_def last_rowid_def rows3_def example_row_keys deleteRun_def getRunById_def
      sql_select_by_id_def sql_count_input_usage_def sql_delete_def persistDatabase_eq
      env_of_simps deleteImage_eq fun_upd_twist)

section \<open>\<^verbatim>\<open>saveRun\<close> when an image write does not succeed\<close>

text \<open>
  When the write of the input image or of the output image is not resolved, \<^verbatim>\<open>saveRun\<close>
  is not resolved, and neither the table nor its snapshot changes: the \<^verbatim>\<open>INSERT\<close> comes
  after the \<^verbatim>\<open>await\<close>. When one of the writes is rejected, \<^verbatim>\<open>saveRun\<close> is rejected with
  the error of a rejected write. When none is rejected and one stays pending, \<^verbatim>\<open>saveRun\<close>
  stays pending.
\<close>

lemma saveRun_image_write_unresolved:
  assumes "(\<nexists>k. fst (saveImageDeduped digest env (inputImage run) False s) = Resolved k) \<or>
           (\<nexists>k. fst (saveImageDeduped digest env (outputImage run) True s) = Resolved k)"
  shows "(\<nexists>i. fst (saveRun digest env run s) = Resolved i) \<and>
         db (snd (saveRun digest env run s)) = db s \<and>
         sqlite (snd (saveRun digest env run s)) = sqlite s"
  using saveRun_not_written(1,2) [OF assms] by (simp add: saveImageDeduped_frame)

lemma saveRun_image_write_rejected:
  assumes "fst (saveImageDeduped digest env (inputImage run) False s) = Rejected e1 \<or>
           fst (saveImageDeduped digest env (outputImage run) True s) = Rejected e2"
  shows "\<exists>e. fst (saveRun digest env run s) = Rejected e \<and>
             (fst (saveImageDeduped digest env (inputImage run) False s) = Rejected e \<or>
              fst (saveImageDeduped digest env (outputImage run) True s) = Rejected e)"
proof -
  let ?a = "fst (saveImageDeduped digest env (inputImage run) False s)"
  let ?b = "fst (saveImageDeduped digest env (outputImage run) True s)"
  from assms have n: "(\<nexists>k. ?a = Resolved k) \<or> (\<nexists>k. ?b = Resolved k)" by auto
  from assms obtain e where "settle_all (second_first env) ?a ?b = Rejected e"
    and "?a = Rejected e \<or> ?b = Rejected e"
    by (cases ?a; cases ?b) auto
  with saveRun_not_written(4) [OF n, of e] show ?thesis by blast
qed

lemma saveRun_image_write_pending:
  assumes "fst (saveImageDeduped digest env (inputImage run) False s) = Pending \<and>
           (\<nexists>e. fst (saveImageDeduped digest env (outputImage run) True s) = Rejected e) \<or>
           fst (saveImageDeduped digest env (outputImage run) True s) = Pending \<and>
           (\<nexists>e. fst (saveImageDeduped digest env (inputImage run) False s) = Rejected e)"
  shows "fst (saveRun digest env run s) = Pending"
proof -
  let ?a = "fst (saveImageDeduped digest env (inputImage run) False s)"
  let ?b = "fst (saveImageDeduped digest env (outputImage run) True s)"
  from assms have n: "(\<nexists>k. ?a = Resolved k) \<or> (\<nexists>k. ?b = Resolved k)" by auto
  from assms have "settle_all (second_first env) ?a ?b = Pending"
    by (cases ?a; cases ?b) auto
  with saveRun_not_written(3) [OF n] show ?thesis by blast
qed

section \<open>Two runs with one output key\<close>

text \<open>
  For every digest: when two \<^verbatim>\<open>saveRun\<close> calls on the fresh store draw the same output
  key and the first run is deleted, the second run is left with an output key that names
  no image.
\<close>

lemma saveRun_no_fault:
  assumes "faults env = {}"
  shows "saveRun digest env run s =
     (let k = hashImage digest (inputImage run); k' = newImageId env;
          d = (db s)\<lparr>runs := runs (db s) @ [insert_values run (last_rowid (db s) + 1) k k'],
                     sqlite_sequence := last_rowid (db s) + 1\<rparr>
      in (Resolved (last_rowid (db s) + 1),
          \<lparr>db = d,
           images = (if images s k = None then (images s)(k \<mapsto> inputImage run) else images s)
                      (k' \<mapsto> outputImage run),
           sqlite = Some d\<rparr>))"
proof -
  have "\<exists>k. fst (saveImageDeduped digest env (inputImage run) False s) = Resolved k"
    "\<exists>k. fst (saveImageDeduped digest env (outputImage run) True s) = Resolved k"
    using assms by (simp_all add: saveImageDeduped_dedup saveImageDeduped_unique)
  from saveRun_written [OF this] assms show ?thesis by (simp add: Let_def)
qed

lemma shared_output_key_lost:
  assumes "faults env1 = {}" "faults env2 = {}" "faults env3 = {}"
      and "newImageId env2 = newImageId env1"
  shows "getRunById 2 (snd (deleteRun env3 1
            (snd (saveRun digest env2 run2 (snd (saveRun digest env1 run1 initial_store)))))) =
           Some (column_row
             (insert_values run2 2 (hashImage digest (inputImage run2)) (newImageId env1))) \<and>
         images (snd (deleteRun env3 1
            (snd (saveRun digest env2 run2 (snd (saveRun digest env1 run1 initial_store))))))
           (newImageId env1) = None"
proof -
  let ?k1 = "hashImage digest (inputImage run1)"
  let ?k2 = "hashImage digest (inputImage run2)"
  let ?u = "newImageId env1"
  let ?r1 = "insert_values run1 1 ?k1 ?u"
  let ?r2 = "insert_values run2 2 ?k2 ?u"
  define s2 where "s2 = snd (saveRun digest env2 run2 (snd (saveRun digest env1 run1 initial_store)))"
  have rows: "runs (db s2) = [?r1, ?r2]"
    by (simp add: s2_def saveRun_no_fault assms Let_def initial_store_def last_rowid_def
        insert_values_fields)
  have g: "sql_select_by_id 1 (db s2) = Some ?r1"
    by (simp add: sql_select_by_id_def rows insert_values_fields)
  have "getRunById 2 (snd (deleteRun env3 1 s2)) = Some (column_row ?r2)"
    by (simp add: getRunById_deleteRun)
       (simp add: getRunById_def sql_select_by_id_def rows insert_values_fields)
  moreover have "images (snd (deleteRun env3 1 s2)) ?u = None"
    by (simp add: deleteRun_images [OF g] assms insert_values_fields)
  ultimately show ?thesis by (simp add: s2_def)
qed

text \<open>
  Two \<^verbatim>\<open>forceNew\<close> writes that succeed return different keys exactly when their clock
  values or the seven characters taken from the random string differ.
\<close>

lemma forceNew_keys_differ_iff:
  assumes "saveImageDeduped digest env1 data True s = (Resolved k1, s1)"
      and "saveImageDeduped digest env2 data True s1 = (Resolved k2, s2)"
  shows "(k1 \<noteq> k2 \<longleftrightarrow>
            date_now env1 \<noteq> date_now env2 \<or>
            take 7 (drop 2 (math_random env1)) \<noteq> take 7 (drop 2 (math_random env2))) \<and>
         images s2 k1 = Some data \<and> images s2 k2 = Some data"
proof -
  from assms(1) have k1: "k1 = newImageId env1"
    and s1: "s1 = s\<lparr>images := (images s)(newImageId env1 \<mapsto> data)\<rparr>"
    by (auto simp: saveImageDeduped_unique split: if_splits)
  from assms(2) have k2: "k2 = newImageId env2"
    and s2: "s2 = s1\<lparr>images := (images s1)(newImageId env2 \<mapsto> data)\<rparr>"
    by (auto simp: saveImageDeduped_unique split: if_splits)
  have "k1 = k2 \<longleftrightarrow>
          date_now env1 = date_now env2 \<and>
          take 7 (drop 2 (math_random env1)) = take 7 (drop 2 (math_random env2))"
    unfolding k1 k2 by (rule newImageId_eq_iff)
  moreover have "images s2 k1 = Some data" "images s2 k2 = Some data"
    by (simp_all add: k1 k2 s1 s2)
  ultimately show ?thesis by blast
qed

section \<open>The row read back after \<^verbatim>\<open>saveRun\<close> and \<^verbatim>\<open>updateRunComment\<close>\<close>

text \<open>
  The row that \<^verbatim>\<open>getRunById\<close> returns for the id that \<^verbatim>\<open>saveRun\<close> returned, and the images
  of the store after the call.
\<close>

lemma saveRun_read_back:
  assumes saved: "saveRun digest env run s = (Resolved i, s')"
  shows "getRunById i s' =
           Some (column_row
                   (insert_values run i (hashImage digest (inputImage run)) (newImageId env)))"
    and "images s' (newImageId env) = Some (outputImage run)"
    and "images s' (hashImage digest (inputImage run)) =
           (if images s (hashImage digest (inputImage run)) = None then Some (inputImage run)
            else images s (hashImage digest (inputImage run)))"
proof -
  let ?k = "hashImage digest (inputImage run)"
  let ?k' = "newImageId env"
  let ?row = "insert_values run (last_rowid (db s) + 1) ?k ?k'"
  have ok: "\<exists>k. fst (saveImageDeduped digest env (inputImage run) False s) = Resolved k"
    "\<exists>k. fst (saveImageDeduped digest env (outputImage run) True s) = Resolved k"
    using saveRun_not_written(1) [of digest env run s] saved by auto
  from saveRun_written [OF ok] saved
  have i: "i = last_rowid (db s) + 1"
    and rows: "runs (db s') = runs (db s) @ [?row]"
    and img: "images s' = (if images s ?k = None then (images s)(?k \<mapsto> inputImage run)
                           else images s)(?k' \<mapsto> outputImage run)"
    by (auto simp: Let_def split: if_splits)
  have neq: "?k' \<noteq> ?k" by (rule newImageId_not_hashImage)
  show "getRunById i s' = Some (column_row (insert_values run i ?k ?k'))"
    unfolding i by (rule getRunById_saved [OF rows]) (simp add: insert_values_fields)
  show "images s' ?k' = Some (outputImage run)" by (simp add: img)
  from neq show "images s' ?k = (if images s ?k = None then Some (inputImage run) else images s ?k)"
    by (auto simp: img)
qed

text \<open>
  The row that \<^verbatim>\<open>getRunById\<close> returns after \<^verbatim>\<open>updateRunComment\<close>: the comment is read as
  every text is.
\<close>

lemma getRunById_updateRunComment:
  assumes "getRunById i s = Some run"
  shows "getRunById i (snd (updateRunComment env i comment s)) =
           Some (run\<lparr>humanComment := Some (column_text comment)\<rparr>)"
  using assms
  by (auto simp: getRunById_def sql_select_by_id_def runs_updateRunComment find_map_update
      column_row_comment)

section \<open>The claims\<close>

subsection \<open>C1: the algorithm of \<^verbatim>\<open>deleteRun\<close>\<close>

text \<open>
  C1: \<^verbatim>\<open>deleteRun\<close> reads the row of the id. When the table has no row with the id it
  returns successfully and leaves the store as it was. When the table has one, \<open>run\<close>
  being the first, the store after the call is the following, however the call ends:
  the row is deleted from the table; when the snapshot write fails nothing else has
  changed; otherwise the snapshot is the table without the row, the output image is
  deleted unless that deletion fails, and the input image is deleted exactly when no
  other row has the same input key, unless that deletion fails. The result is that of
  the snapshot write when it fails, else that of the image deletions. In every store
  that a session reaches, the input image of every other row is in the object store
  before the call and is read with the same bytes after it; and when no other row has
  the input key of the deleted row, the snapshot write and the deletion of the input
  image not failing, a read of that key finds nothing.
\<close>

theorem deleteRun_algorithm:
  "((\<forall>r \<in> set (runs (db s)). runId r \<noteq> i) \<longrightarrow> deleteRun env i s = (Resolved (), s)) \<and>
   (\<forall>xs run ys.
      runs (db s) = xs @ run # ys \<and> runId run = i \<and> (\<forall>r \<in> set xs. runId r \<noteq> i) \<longrightarrow>
      snd (deleteRun env i s) =
        (let d = (db s)\<lparr>runs := filter (\<lambda>r. runId r \<noteq> i) (runs (db s))\<rparr>;
             n = length (filter (\<lambda>r. inputImageId r = inputImageId run \<and> runId r \<noteq> i)
                           (runs (db s)))
         in if SaveToIndexedDB \<in> faults env then s\<lparr>db := d\<rparr>
            else \<lparr>db = d,
                  images = (\<lambda>k.
                    if k = outputImageId run \<and> DeleteImage (outputImageId run) \<notin> faults env
                    then None
                    else if k = inputImageId run \<and> n = 0 \<and>
                            DeleteImage (inputImageId run) \<notin> faults env
                    then None
                    else images s k),
                  sqlite = Some d\<rparr>) \<and>
      fst (deleteRun env i s) =
        (let n = length (filter (\<lambda>r. inputImageId r = inputImageId run \<and> runId r \<noteq> i)
                           (runs (db s)));
             out = (if DeleteImage (outputImageId run) \<in> faults env
                    then failure env (DeleteImage (outputImageId run)) else Resolved ());
             inp = (if DeleteImage (inputImageId run) \<in> faults env
                    then failure env (DeleteImage (inputImageId run)) else Resolved ())
         in if SaveToIndexedDB \<in> faults env then failure env SaveToIndexedDB
            else if n = 0 then
              (case settle_all (second_first env) out inp of
                 Resolved _ \<Rightarrow> Resolved () | Rejected e \<Rightarrow> Rejected e | Pending \<Rightarrow> Pending)
            else out)) \<and>
   (\<forall>other. reachable digest s \<and> other \<in> set (runs (db s)) \<and> runId other \<noteq> i \<longrightarrow>
      (\<exists>b. images s (inputImageId other) = Some b \<and>
           images (snd (deleteRun env i s)) (inputImageId other) = Some b \<and>
           (\<forall>env'. GetImage (inputImageId other) \<notin> faults env' \<longrightarrow>
              loadImage env' (inputImageId other) (snd (deleteRun env i s)) =
                Resolved (Some b)))) \<and>
   (\<forall>xs run ys.
      runs (db s) = xs @ run # ys \<and> runId run = i \<and> (\<forall>r \<in> set xs. runId r \<noteq> i) \<and>
      (\<forall>r \<in> set (runs (db s)). runId r \<noteq> i \<longrightarrow> inputImageId r \<noteq> inputImageId run) \<and>
      SaveToIndexedDB \<notin> faults env \<and> DeleteImage (inputImageId run) \<notin> faults env \<longrightarrow>
      images (snd (deleteRun env i s)) (inputImageId run) = None \<and>
      (\<forall>env'. GetImage (inputImageId run) \<notin> faults env' \<longrightarrow>
         loadImage env' (inputImageId run) (snd (deleteRun env i s)) = Resolved None))"
proof (intro conjI allI impI)
  assume "\<forall>r \<in> set (runs (db s)). runId r \<noteq> i"
  then have "getRunById i s = None" by (simp add: getRunById_None_iff)
  then show "deleteRun env i s = (Resolved (), s)" by (rule deleteRun_None)
next
  fix xs run ys
  assume a: "runs (db s) = xs @ run # ys \<and> runId run = i \<and> (\<forall>r \<in> set xs. runId r \<noteq> i)"
  then have sel: "sql_select_by_id i (db s) = Some run"
    by (intro sql_select_by_id_first [of _ xs run ys]) simp_all
  show "snd (deleteRun env i s) =
        (let d = (db s)\<lparr>runs := filter (\<lambda>r. runId r \<noteq> i) (runs (db s))\<rparr>;
             n = length (filter (\<lambda>r. inputImageId r = inputImageId run \<and> runId r \<noteq> i)
                           (runs (db s)))
         in if SaveToIndexedDB \<in> faults env then s\<lparr>db := d\<rparr>
            else \<lparr>db = d,
                  images = (\<lambda>k.
                    if k = outputImageId run \<and> DeleteImage (outputImageId run) \<notin> faults env
                    then None
                    else if k = inputImageId run \<and> n = 0 \<and>
                            DeleteImage (inputImageId run) \<notin> faults env
                    then None
                    else images s k),
                  sqlite = Some d\<rparr>)"
    unfolding deleteRun_store [OF sel]
    by (auto simp: Let_def sql_delete_def sql_count_input_usage_def fun_eq_iff)
  show "fst (deleteRun env i s) =
        (let n = length (filter (\<lambda>r. inputImageId r = inputImageId run \<and> runId r \<noteq> i)
                           (runs (db s)));
             out = (if DeleteImage (outputImageId run) \<in> faults env
                    then failure env (DeleteImage (outputImageId run)) else Resolved ());
             inp = (if DeleteImage (inputImageId run) \<in> faults env
                    then failure env (DeleteImage (inputImageId run)) else Resolved ())
         in if SaveToIndexedDB \<in> faults env then failure env SaveToIndexedDB
            else if n = 0 then
              (case settle_all (second_first env) out inp of
                 Resolved _ \<Rightarrow> Resolved () | Rejected e \<Rightarrow> Rejected e | Pending \<Rightarrow> Pending)
            else out)"
    unfolding deleteRun_result [OF sel]
    by (simp add: Let_def sql_count_input_usage_def)
next
  fix other
  assume a: "reachable digest s \<and> other \<in> set (runs (db s)) \<and> runId other \<noteq> i"
  then have r: "reachable digest s" by simp
  have ks: "keys_separate s" using r by (rule reachable_keys_separate)
  have ie: "inputs_exist s" using r by (rule reachable_inputs_exist)
  from ie a obtain b where b: "images s (inputImageId other) = Some b"
    by (auto simp: inputs_exist_def)
  from a have "images (snd (deleteRun env i s)) (inputImageId other) = images s (inputImageId other)"
    by (intro deleteRun_keeps_input [OF ks]) simp_all
  with b have c: "images (snd (deleteRun env i s)) (inputImageId other) = Some b" by simp
  then have "\<forall>env'. GetImage (inputImageId other) \<notin> faults env' \<longrightarrow>
      loadImage env' (inputImageId other) (snd (deleteRun env i s)) = Resolved (Some b)"
    by (simp add: loadImage_def)
  with b c show "\<exists>b. images s (inputImageId other) = Some b \<and>
           images (snd (deleteRun env i s)) (inputImageId other) = Some b \<and>
           (\<forall>env'. GetImage (inputImageId other) \<notin> faults env' \<longrightarrow>
              loadImage env' (inputImageId other) (snd (deleteRun env i s)) =
                Resolved (Some b))"
    by blast
next
  fix xs run ys
  assume a: "runs (db s) = xs @ run # ys \<and> runId run = i \<and> (\<forall>r \<in> set xs. runId r \<noteq> i) \<and>
      (\<forall>r \<in> set (runs (db s)). runId r \<noteq> i \<longrightarrow> inputImageId r \<noteq> inputImageId run) \<and>
      SaveToIndexedDB \<notin> faults env \<and> DeleteImage (inputImageId run) \<notin> faults env"
  then have sel: "sql_select_by_id i (db s) = Some run"
    by (intro sql_select_by_id_first [of _ xs run ys]) simp_all
  from a have "\<forall>r \<in> set (runs (db s)). runId r \<noteq> i \<longrightarrow> inputImageId r \<noteq> inputImageId run"
    by blast
  then have "sql_count_input_usage (inputImageId run) i (db s) = 0"
    by (auto simp: sql_count_input_usage_def filter_empty_conv)
  with a have n: "images (snd (deleteRun env i s)) (inputImageId run) = None"
    by (simp add: deleteRun_images [OF sel])
  then show "images (snd (deleteRun env i s)) (inputImageId run) = None" .
  fix env' :: Env
  assume "GetImage (inputImageId run) \<notin> faults env'"
  with n show "loadImage env' (inputImageId run) (snd (deleteRun env i s)) = Resolved None"
    by (simp add: loadImage_def)
qed

text \<open>
  Witness for C1: in \<open>store3\<close> runs 1 and 2 share the input image \<open>AAA\<close> and run 3 alone
  has \<open>DDD\<close>. Deleting the absent id 9 changes nothing; deleting run 1 succeeds, leaves
  runs 2 and 3 in the table and in the snapshot, removes \<open>BBB\<close> and keeps \<open>AAA\<close>
  readable; deleting run 3 succeeds, leaves runs 1 and 2 in the table and in the
  snapshot, and removes \<open>DDD\<close> and \<open>EEE\<close>.
\<close>

theorem deleteRun_algorithm_witness:
  "map runId (runs (db store3)) = [1, 2, 3] \<and>
   deleteRun (env_of 1700000000007 [] {}) 9 store3 = (Resolved (), store3) \<and>
   reachable byte_digest store3 \<and>
   deleteRun (env_of 1700000000007 [] {}) 1 store3 =
     (Resolved (),
      \<lparr>db = \<lparr>runs = drop 1 rows3, sqlite_sequence = 3\<rparr>,
       images = (images store3)(''img_1700000000000_k3j2h4g'' := None),
       sqlite = Some \<lparr>runs = drop 1 rows3, sqlite_sequence = 3\<rparr>\<rparr>) \<and>
   images (snd (deleteRun (env_of 1700000000007 [] {}) 1 store3)) ''img_414141'' = Some ''AAA'' \<and>
   loadImage (env_of 1700000000008 [] {}) ''img_414141''
     (snd (deleteRun (env_of 1700000000007 [] {}) 1 store3)) = Resolved (Some ''AAA'') \<and>
   deleteRun (env_of 1700000000007 [] {}) 3 store3 =
     (Resolved (),
      \<lparr>db = \<lparr>runs = take 2 rows3, sqlite_sequence = 3\<rparr>,
       images = (images store3)(''img_1700000000002_q1w2e3r'' := None, ''img_444444'' := None),
       sqlite = Some \<lparr>runs = take 2 rows3, sqlite_sequence = 3\<rparr>\<rparr>) \<and>
   loadImage (env_of 1700000000008 [] {}) ''img_444444''
     (snd (deleteRun (env_of 1700000000007 [] {}) 3 store3)) = Resolved None"
proof -
  let ?env = "env_of 1700000000007 [] {}"
  let ?env' = "env_of 1700000000008 [] {}"
  let ?row1 = "example_row 1 ''2024-01-01T10:00:00.000Z'' ''img_414141'' ''img_1700000000000_k3j2h4g''"
  let ?row2 = "example_row 2 ''2024-01-02T10:00:00.000Z'' ''img_414141'' ''img_1700000000001_9zx8cv7''"
  let ?row3 = "example_row 3 ''2024-01-02T10:00:00.000Z'' ''img_444444'' ''img_1700000000002_q1w2e3r''"
  have rows: "runs (db store3) = [?row1, ?row2, ?row3]" by (simp add: store3_eq rows3_def)
  have reach: "reachable byte_digest store3" by (rule reachable_stores(3))
  have none: "\<forall>r \<in> set (runs (db store3)). runId r \<noteq> 9"
    by (simp add: rows example_row_keys)
  note alg9 = deleteRun_algorithm [of store3 9 ?env byte_digest]
  from alg9 [THEN conjunct1, THEN mp, OF none]
  have absent: "deleteRun ?env 9 store3 = (Resolved (), store3)" .
  note alg1 = deleteRun_algorithm [of store3 1 ?env byte_digest]
  have pre1: "reachable byte_digest store3 \<and> ?row2 \<in> set (runs (db store3)) \<and> runId ?row2 \<noteq> 1"
    using reach by (simp add: rows example_row_keys)
  from alg1 [THEN conjunct2, THEN conjunct2, THEN conjunct1, THEN spec, THEN mp, OF pre1]
  obtain b where b: "images store3 (inputImageId ?row2) = Some b"
    "images (snd (deleteRun ?env 1 store3)) (inputImageId ?row2) = Some b"
    "\<forall>env'. GetImage (inputImageId ?row2) \<notin> faults env' \<longrightarrow>
       loadImage env' (inputImageId ?row2) (snd (deleteRun ?env 1 store3)) = Resolved (Some b)"
    by blast
  from b(1) have "b = ''AAA''" by (simp add: example_row_keys store3_eq)
  with b(2) b(3) [THEN spec, of ?env']
  have shared: "images (snd (deleteRun ?env 1 store3)) ''img_414141'' = Some ''AAA''"
    "loadImage ?env' ''img_414141'' (snd (deleteRun ?env 1 store3)) = Resolved (Some ''AAA'')"
    by (simp_all add: example_row_keys env_of_simps)
  have pre1': "runs (db store3) = [] @ ?row1 # [?row2, ?row3] \<and> runId ?row1 = 1 \<and>
      (\<forall>r \<in> set []. runId r \<noteq> 1)"
    by (simp add: rows example_row_keys)
  from alg1 [THEN conjunct2, THEN conjunct1, THEN spec, THEN spec, THEN spec, THEN mp, OF pre1']
  have first: "deleteRun ?env 1 store3 =
     (Resolved (),
      \<lparr>db = \<lparr>runs = drop 1 rows3, sqlite_sequence = 3\<rparr>,
       images = (images store3)(''img_1700000000000_k3j2h4g'' := None),
       sqlite = Some \<lparr>runs = drop 1 rows3, sqlite_sequence = 3\<rparr>\<rparr>)"
    by (intro prod_eqI)
       (auto simp: Let_def rows example_row_keys env_of_simps fun_eq_iff store3_eq rows3_def)
  note alg3 = deleteRun_algorithm [of store3 3 ?env byte_digest]
  have pre3: "runs (db store3) = [?row1, ?row2] @ ?row3 # [] \<and> runId ?row3 = 3 \<and>
      (\<forall>r \<in> set [?row1, ?row2]. runId r \<noteq> 3)"
    by (simp add: rows example_row_keys)
  from alg3 [THEN conjunct2, THEN conjunct1, THEN spec, THEN spec, THEN spec, THEN mp, OF pre3]
  have "deleteRun ?env 3 store3 =
     (Resolved (),
      \<lparr>db = \<lparr>runs = take 2 rows3, sqlite_sequence = 3\<rparr>,
       images = (images store3)(''img_1700000000002_q1w2e3r'' := None, ''img_444444'' := None),
       sqlite = Some \<lparr>runs = take 2 rows3, sqlite_sequence = 3\<rparr>\<rparr>)"
    by (intro prod_eqI)
       (auto simp: Let_def rows example_row_keys env_of_simps fun_eq_iff store3_eq rows3_def)
  moreover have pre3': "runs (db store3) = [?row1, ?row2] @ ?row3 # [] \<and> runId ?row3 = 3 \<and>
      (\<forall>r \<in> set [?row1, ?row2]. runId r \<noteq> 3) \<and>
      (\<forall>r \<in> set (runs (db store3)). runId r \<noteq> 3 \<longrightarrow> inputImageId r \<noteq> inputImageId ?row3) \<and>
      SaveToIndexedDB \<notin> faults ?env \<and> DeleteImage (inputImageId ?row3) \<notin> faults ?env"
    by (simp add: rows example_row_keys env_of_simps)
  from alg3 [THEN conjunct2, THEN conjunct2, THEN conjunct2, THEN spec, THEN spec, THEN spec,
      THEN mp, OF pre3', THEN conjunct2, THEN spec, of ?env']
  have "loadImage ?env' ''img_444444'' (snd (deleteRun ?env 3 store3)) = Resolved None"
    by (simp add: example_row_keys env_of_simps)
  moreover have "map runId (runs (db store3)) = [1, 2, 3]"
    by (simp add: rows example_row_keys)
  ultimately show ?thesis using absent reach first shared by simp
qed

subsection \<open>C2: order of \<^verbatim>\<open>getRuns\<close>\<close>




subsection \<open>C3: a saved run is read back\<close>

text \<open>
  C3 says that a run saved by \<^verbatim>\<open>saveRun\<close> is read back by \<^verbatim>\<open>getRunById\<close> and
  \<^verbatim>\<open>loadImagesForRun\<close> with its metadata and its two images. What holds: when \<^verbatim>\<open>saveRun\<close>
  returns an id, \<^verbatim>\<open>getRunById\<close> of that id returns a row with that id, whose input key is
  the content key of the input image and whose output key is the key drawn for the
  output image. The fourteen metadata fields of the row are those of the run when no
  text field of the run has a U+0000 and no number is \<^verbatim>\<open>NaN\<close>. \<^verbatim>\<open>loadImagesForRun\<close> of the
  row returns the two images of the run (when the two reads are not rejected) when the
  store before the call held nothing or the same image under the content key of the
  input image: the key is made of 16 hexadecimal digits of the digest, and an image
  whose key is taken is not written.
\<close>

theorem saveRun_round_trip:
  assumes saved: "saveRun digest env run s = (Resolved i, s')"
  shows "\<exists>row. getRunById i s' = Some row \<and> runId row = i \<and>
           inputImageId row = hashImage digest (inputImage run) \<and>
           outputImageId row = newImageId env \<and>
           (plain_run run \<longrightarrow> same_metadata run row) \<and>
           (images s (hashImage digest (inputImage run)) = None \<or>
            images s (hashImage digest (inputImage run)) = Some (inputImage run) \<longrightarrow>
              (\<forall>env'. GetImage (inputImageId row) \<notin> faults env' \<and>
                      GetImage (outputImageId row) \<notin> faults env' \<longrightarrow>
                 loadImagesForRun env' row s' = Resolved (inputImage run, outputImage run)))"
proof -
  let ?k = "hashImage digest (inputImage run)"
  let ?k' = "newImageId env"
  let ?row = "column_row (insert_values run i ?k ?k')"
  note rb = saveRun_read_back [OF saved]
  have load: "loadImagesForRun env' ?row s' = Resolved (inputImage run, outputImage run)"
    if "images s ?k = None \<or> images s ?k = Some (inputImage run)"
      and "GetImage (inputImageId ?row) \<notin> faults env' \<and>
           GetImage (outputImageId ?row) \<notin> faults env'"
    for env'
    using that rb(2,3)
    by (auto simp: loadImagesForRun_eq insert_values_fields)
  have meta: "plain_run run \<longrightarrow> same_metadata run ?row"
    by (simp add: same_metadata_plain)
  from rb(1) meta load show ?thesis
    by (intro exI [of _ ?row]) (simp add: insert_values_fields)
qed

text \<open>
  Witness for C3: the third run of the example, saved on \<open>store2\<close>, gets id 3 and is
  read back with its metadata and its images \<open>DDD\<close> and \<open>EEE\<close>.
\<close>

theorem saveRun_round_trip_witness:
  "saveRun byte_digest (env_of 1700000000002 ''0.q1w2e3r4t5s'' {})
     (example_run ''2024-01-02T10:00:00.000Z'' ''DDD'' ''EEE'') store2 = (Resolved 3, store3) \<and>
   plain_run (example_run ''2024-01-02T10:00:00.000Z'' ''DDD'' ''EEE'') \<and>
   images store2 ''img_444444'' = None \<and>
   getRunById 3 store3 =
     Some (example_row 3 ''2024-01-02T10:00:00.000Z'' ''img_444444'' ''img_1700000000002_q1w2e3r'') \<and>
   same_metadata (example_run ''2024-01-02T10:00:00.000Z'' ''DDD'' ''EEE'')
     (example_row 3 ''2024-01-02T10:00:00.000Z'' ''img_444444'' ''img_1700000000002_q1w2e3r'') \<and>
   loadImagesForRun (env_of 1700000000009 [] {})
     (example_row 3 ''2024-01-02T10:00:00.000Z'' ''img_444444'' ''img_1700000000002_q1w2e3r'')
     store3 = Resolved (''DDD'', ''EEE'')"
proof -
  let ?env = "env_of 1700000000002 ''0.q1w2e3r4t5s'' {}"
  let ?run = "example_run ''2024-01-02T10:00:00.000Z'' ''DDD'' ''EEE''"
  let ?row = "example_row 3 ''2024-01-02T10:00:00.000Z'' ''img_444444'' ''img_1700000000002_q1w2e3r''"
  have saved: "saveRun byte_digest ?env ?run store2 = (Resolved 3, store3)"
    unfolding store3_def
    by (simp add: store2_eq saveRun_example Let_def last_rowid_def rows3_def example_row_def)
  have plain: "plain_run ?run"
    by (simp add: plain_run_def example_run_def plain_text_def plain_number_def)
  have free: "images store2 ''img_444444'' = None" by (simp add: store2_eq)
  then have slot: "images store2 (hashImage byte_digest (inputImage ?run)) = None \<or>
              images store2 (hashImage byte_digest (inputImage ?run)) = Some (inputImage ?run)"
    by (simp add: example_run_images hashImage_DDD)
  from saveRun_round_trip [OF saved] getRunById_store3(3) plain slot
  have "same_metadata ?run ?row"
    and "\<forall>env'. GetImage (inputImageId ?row) \<notin> faults env' \<and>
               GetImage (outputImageId ?row) \<notin> faults env' \<longrightarrow>
          loadImagesForRun env' ?row store3 = Resolved (inputImage ?run, outputImage ?run)"
    by auto
  then have "same_metadata ?run ?row"
    "loadImagesForRun (env_of 1700000000009 [] {}) ?row store3 = Resolved (''DDD'', ''EEE'')"
    by (simp_all add: env_of_simps example_run_images)
  with saved plain free getRunById_store3(3) show ?thesis by simp
qed

text \<open>
  Counterexample to C3 as stated. A run whose prompt is \<open>a\<close>, U+0000, \<open>b\<close> is saved with
  id 1 and read back with the prompt \<open>a\<close>. A run whose duration is \<^verbatim>\<open>NaN\<close> is saved with
  id 1 and read back without a duration. A run with the input image \<open>AAA\<close>, saved with
  id 1 on a store that holds \<open>ZZZ\<close> under the content key of \<open>AAA\<close>, is read back with
  the input image \<open>ZZZ\<close>. (Whatever the digest is, two different images have the same
  content key: \<open>hashImage_collision\<close>.)
\<close>

theorem saveRun_round_trip_counterexample:
  "compiledPrompt nul_run = [CHR ''a'', CHR 0x00, CHR ''b''] \<and>
   fst (saveRun byte_digest (env_of 1700000000000 ''0.k3j2h4g5f6d'' {}) nul_run initial_store) =
     Resolved 1 \<and>
   getRunById 1
     (snd (saveRun byte_digest (env_of 1700000000000 ''0.k3j2h4g5f6d'' {}) nul_run initial_store)) =
     Some ((example_row 1 ''2024-01-01T10:00:00.000Z'' ''img_414141'' ''img_1700000000000_k3j2h4g'')
             \<lparr>compiledPrompt := ''a''\<rparr>) \<and>
   durationMs nan_run = Some NaN \<and>
   fst (saveRun byte_digest (env_of 1700000000000 ''0.k3j2h4g5f6d'' {}) nan_run initial_store) =
     Resolved 1 \<and>
   getRunById 1
     (snd (saveRun byte_digest (env_of 1700000000000 ''0.k3j2h4g5f6d'' {}) nan_run initial_store)) =
     Some ((example_row 1 ''2024-01-01T10:00:00.000Z'' ''img_414141'' ''img_1700000000000_k3j2h4g'')
             \<lparr>durationMs := None\<rparr>) \<and>
    fst (saveRun byte_digest (env_of 1700000000000 ''0.k3j2h4g5f6d'' {})
          (example_run ''2024-01-01T10:00:00.000Z'' ''AAA'' ''BBB'') taken_store) = Resolved 1 \<and>
   getRunById 1
     (snd (saveRun byte_digest (env_of 1700000000000 ''0.k3j2h4g5f6d'' {})
             (example_run ''2024-01-01T10:00:00.000Z'' ''AAA'' ''BBB'') taken_store)) =
     Some (example_row 1 ''2024-01-01T10:00:00.000Z'' ''img_414141'' ''img_1700000000000_k3j2h4g'') \<and>
   loadImagesForRun (env_of 1700000000009 [] {})
     (example_row 1 ''2024-01-01T10:00:00.000Z'' ''img_414141'' ''img_1700000000000_k3j2h4g'')
     (snd (saveRun byte_digest (env_of 1700000000000 ''0.k3j2h4g5f6d'' {})
             (example_run ''2024-01-01T10:00:00.000Z'' ''AAA'' ''BBB'') taken_store)) =
     Resolved (''ZZZ'', ''BBB'') \<and>
   \<not> same_metadata nul_run
       ((example_row 1 ''2024-01-01T10:00:00.000Z'' ''img_414141'' ''img_1700000000000_k3j2h4g'')
          \<lparr>compiledPrompt := ''a''\<rparr>) \<and>
   \<not> same_metadata nan_run
       ((example_row 1 ''2024-01-01T10:00:00.000Z'' ''img_414141'' ''img_1700000000000_k3j2h4g'')
          \<lparr>durationMs := None\<rparr>) \<and>
   ''ZZZ'' \<noteq> inputImage (example_run ''2024-01-01T10:00:00.000Z'' ''AAA'' ''BBB'')"
proof -
  let ?env = "env_of 1700000000000 ''0.k3j2h4g5f6d'' {}"
  let ?row = "example_row 1 ''2024-01-01T10:00:00.000Z'' ''img_414141'' ''img_1700000000000_k3j2h4g''"
  have f: "faults ?env = {}" by (simp add: env_of_simps)
  have a: "fst (saveRun byte_digest ?env nul_run initial_store) = Resolved 1"
    "getRunById 1 (snd (saveRun byte_digest ?env nul_run initial_store)) =
       Some (?row\<lparr>compiledPrompt := ''a''\<rparr>)"
    by (simp_all add: saveRun_no_fault [OF f] Let_def initial_store_def last_rowid_def
        getRunById_def sql_select_by_id_def insert_values_def column_row_def column_text_def
        nul_run_def example_run_def example_row_def hashImage_AAA newImageId_example
        bind_number_def)
  have b: "fst (saveRun byte_digest ?env nan_run initial_store) = Resolved 1"
    "getRunById 1 (snd (saveRun byte_digest ?env nan_run initial_store)) =
       Some (?row\<lparr>durationMs := None\<rparr>)"
    by (simp_all add: saveRun_no_fault [OF f] Let_def initial_store_def last_rowid_def
        getRunById_def sql_select_by_id_def insert_values_def column_row_def column_text_def
        nan_run_def example_run_def example_row_def hashImage_AAA newImageId_example
        bind_number_def)
  let ?run = "example_run ''2024-01-01T10:00:00.000Z'' ''AAA'' ''BBB''"
  have c: "fst (saveRun byte_digest ?env ?run taken_store) = Resolved 1"
    "getRunById 1 (snd (saveRun byte_digest ?env ?run taken_store)) = Some ?row"
    "loadImagesForRun (env_of 1700000000009 [] {}) ?row
       (snd (saveRun byte_digest ?env ?run taken_store)) = Resolved (''ZZZ'', ''BBB'')"
    by (simp_all add: saveRun_example Let_def taken_store_def initial_store_def last_rowid_def
        getRunById_def sql_select_by_id_def example_row_keys hashImage_AAA newImageId_example
        loadImagesForRun_eq env_of_simps plain_text_def)
  have "compiledPrompt nul_run = [CHR ''a'', CHR 0x00, CHR ''b'']" "durationMs nan_run = Some NaN"
    by (simp_all add: nul_run_def nan_run_def)
  moreover have "\<not> same_metadata nul_run (?row\<lparr>compiledPrompt := ''a''\<rparr>)"
    "\<not> same_metadata nan_run (?row\<lparr>durationMs := None\<rparr>)"
    by (simp_all add: same_metadata_def nul_run_def nan_run_def example_run_def example_row_def)
  ultimately show ?thesis using a b c by (simp add: example_run_images)
qed

subsection \<open>C4: a failed image write inserts no row\<close>

text \<open>
  C4 says that \<^verbatim>\<open>saveRun\<close> propagates the error of a failed image write and inserts no
  row. No row is inserted (\<open>saveRun_image_write_unresolved\<close>), and a write that is
  rejected rejects \<^verbatim>\<open>saveRun\<close> (\<open>saveRun_image_write_rejected\<close>). But the promise of a
  write settles in \<^verbatim>\<open>tx.oncomplete\<close> and \<^verbatim>\<open>tx.onerror\<close> only. Here the transaction that
  puts the output image \<open>BBB\<close> is aborted without an error event: the write has failed,
  the image is not in the object store, the write of the input image has gone through,
  no row is inserted, and \<^verbatim>\<open>saveRun\<close> is neither resolved nor rejected: its caller gets
  no error (\<open>saveRun_image_write_pending\<close> for every run and store).
\<close>

theorem saveRun_blob_write_aborted:
  "saveImageDeduped byte_digest
     (env_aborting 1700000000000 ''0.k3j2h4g5f6d'' {PutImage ''img_1700000000000_k3j2h4g''})
     ''BBB'' True initial_store = (Pending, initial_store) \<and>
   saveRun byte_digest
     (env_aborting 1700000000000 ''0.k3j2h4g5f6d'' {PutImage ''img_1700000000000_k3j2h4g''})
     (example_run ''2024-01-01T10:00:00.000Z'' ''AAA'' ''BBB'') initial_store =
     (Pending, initial_store\<lparr>images := [''img_414141'' \<mapsto> ''AAA'']\<rparr>) \<and>
   runs (db (initial_store\<lparr>images := [''img_414141'' \<mapsto> ''AAA'']\<rparr>)) = []"
proof -
  let ?env = "env_aborting 1700000000000 ''0.k3j2h4g5f6d'' {PutImage ''img_1700000000000_k3j2h4g''}"
  let ?run = "example_run ''2024-01-01T10:00:00.000Z'' ''AAA'' ''BBB''"
  have out: "saveImageDeduped byte_digest ?env ''BBB'' True initial_store = (Pending, initial_store)"
    by (simp add: saveImageDeduped_unique newImageId_example env_of_simps failure_def)
  have inp: "saveImageDeduped byte_digest ?env ''AAA'' False initial_store =
      (Resolved ''img_414141'', initial_store\<lparr>images := [''img_414141'' \<mapsto> ''AAA'']\<rparr>)"
    by (simp add: saveImageDeduped_dedup hashImage_AAA env_of_simps initial_store_def)
  have out': "saveImageDeduped byte_digest ?env ''BBB'' True
      (initial_store\<lparr>images := [''img_414141'' \<mapsto> ''AAA'']\<rparr>) =
      (Pending, initial_store\<lparr>images := [''img_414141'' \<mapsto> ''AAA'']\<rparr>)"
    by (simp add: saveImageDeduped_unique newImageId_example env_of_simps failure_def)
  have "saveRun byte_digest ?env ?run initial_store =
      (Pending, initial_store\<lparr>images := [''img_414141'' \<mapsto> ''AAA'']\<rparr>)"
    by (simp add: saveRun_eq both_def example_run_images inp out' Let_def)
  with out show ?thesis by (simp add: initial_store_def)
qed

subsection \<open>C5: the images that a row references exist\<close>

text \<open>
  C5 says that in every store reached by \<^verbatim>\<open>saveRun\<close>, \<^verbatim>\<open>updateRunComment\<close> and \<^verbatim>\<open>deleteRun\<close>
  calls the input and the output key of every row name an image of the object store.
  The input key always does (\<open>reachable_inputs_exist\<close>). The output key is made of the
  millisecond clock and of seven characters of a random string, and \<^verbatim>\<open>saveRun\<close> does not
  look whether it is in use, although the source calls it always unique. In
  \<open>collided_store\<close> two runs were saved within the same millisecond with the random
  strings \<open>0.k3j2h4g5f6d\<close> and \<open>0.k3j2h4gzzz8\<close>, and the first run was deleted: the
  second run is read by \<^verbatim>\<open>getRunById\<close>, its output key names no image, and
  \<^verbatim>\<open>loadImagesForRun\<close> returns the empty string for it. The digest has no part in it
  (\<open>shared_output_key_lost\<close>).
\<close>

theorem output_key_dangling:
  "reachable byte_digest collided_store \<and>
   getRunById 2 collided_store =
     Some (example_row 2 ''2024-01-02T10:00:00.000Z'' ''img_414141'' ''img_1700000000000_k3j2h4g'') \<and>
   images collided_store ''img_1700000000000_k3j2h4g'' = None \<and>
   loadImagesForRun (env_of 1700000000009 [] {})
     (example_row 2 ''2024-01-02T10:00:00.000Z'' ''img_414141'' ''img_1700000000000_k3j2h4g'')
     collided_store = Resolved (''AAA'', [])"
proof -
  have "reachable byte_digest collided_store"
    unfolding collided_store_def using reachable_stores(1)
    by (intro reach_deleteRun reach_saveRun)
  then show ?thesis
    by (simp add: collided_store_eq getRunById_def sql_select_by_id_def example_row_keys
        plain_text_def loadImagesForRun_eq env_of_simps)
qed

subsection \<open>C6: the deduplicating write, twice\<close>

text \<open>
  C6 says that two deduplicating writes of the same bytes return the same key and that
  the object store then holds exactly one copy of the bytes. What holds: two such writes
  that succeed return the same key, the content key of the bytes; the second changes
  nothing; the first changes at most the entry under that key, which it fills when it
  was empty. The store then holds exactly one copy when, before the first write, no
  other key held the bytes and the content key was unused or held these bytes.
\<close>

theorem dedup_twice:
  assumes "saveImageDeduped digest env1 data False s = (Resolved k1, s1)"
      and "saveImageDeduped digest env2 data False s1 = (Resolved k2, s2)"
  shows "k1 = hashImage digest data \<and> k2 = k1 \<and> s2 = s1 \<and>
         images s2 k1 = (if images s k1 = None then Some data else images s k1) \<and>
         (\<forall>k. k \<noteq> k1 \<longrightarrow> images s2 k = images s k) \<and>
         ((\<forall>k. images s k = Some data \<longrightarrow> k = k1) \<and>
          (images s k1 = None \<or> images s k1 = Some data) \<longrightarrow>
            {k. images s2 k = Some data} = {k1})"
proof -
  let ?k = "hashImage digest data"
  from assms(1) have k1: "k1 = ?k"
    and s1: "s1 = (if images s ?k = None then s\<lparr>images := (images s)(?k \<mapsto> data)\<rparr> else s)"
    by (auto simp: saveImageDeduped_dedup split: if_splits)
  then have ex: "images s1 ?k \<noteq> None" by auto
  with assms(2) have k2: "k2 = ?k" and s2: "s2 = s1"
    by (auto simp: saveImageDeduped_dedup split: if_splits)
  have a: "images s2 k1 = (if images s k1 = None then Some data else images s k1)"
    by (simp add: s2 s1 k1)
  have b: "images s2 k = images s k" if "k \<noteq> k1" for k
    using that by (simp add: s2 s1 k1)
  have c: "{k. images s2 k = Some data} = {k1}"
    if "\<forall>k. images s k = Some data \<longrightarrow> k = k1" "images s k1 = None \<or> images s k1 = Some data"
  proof (intro equalityI subsetI)
    fix x assume "x \<in> {k. images s2 k = Some data}"
    then have "images s2 x = Some data" by simp
    with b [of x] that(1) show "x \<in> {k1}" by (cases "x = k1") auto
  next
    fix x assume "x \<in> {k1}"
    with a that(2) show "x \<in> {k. images s2 k = Some data}" by auto
  qed
  from k1 k2 s2 a b c show ?thesis by blast
qed

text \<open>
  Witness for C6: on the fresh store two writes of \<open>AAA\<close> return the same key and leave
  one copy.
\<close>

theorem dedup_twice_witness:
  "saveImageDeduped byte_digest (env_of 1700000000000 ''0.k3j2h4g5f6d'' {}) ''AAA'' False initial_store =
     (Resolved ''img_414141'', initial_store\<lparr>images := [''img_414141'' \<mapsto> ''AAA'']\<rparr>) \<and>
   saveImageDeduped byte_digest (env_of 1700000000001 ''0.9zx8cv7bn6b'' {}) ''AAA'' False
       (initial_store\<lparr>images := [''img_414141'' \<mapsto> ''AAA'']\<rparr>) =
     (Resolved ''img_414141'', initial_store\<lparr>images := [''img_414141'' \<mapsto> ''AAA'']\<rparr>) \<and>
   {k. images (initial_store\<lparr>images := [''img_414141'' \<mapsto> ''AAA'']\<rparr>) k = Some ''AAA''} =
     {''img_414141''}"
proof -
  let ?s1 = "initial_store\<lparr>images := [''img_414141'' \<mapsto> ''AAA'']\<rparr>"
  have a: "saveImageDeduped byte_digest (env_of 1700000000000 ''0.k3j2h4g5f6d'' {}) ''AAA'' False
             initial_store = (Resolved ''img_414141'', ?s1)"
    by (simp add: saveImageDeduped_dedup hashImage_AAA env_of_simps initial_store_def)
  have b: "saveImageDeduped byte_digest (env_of 1700000000001 ''0.9zx8cv7bn6b'' {}) ''AAA'' False ?s1 =
             (Resolved ''img_414141'', ?s1)"
    by (simp add: saveImageDeduped_dedup hashImage_AAA env_of_simps initial_store_def)
  have "(\<forall>k. images initial_store k = Some ''AAA'' \<longrightarrow> k = ''img_414141'') \<and>
        (images initial_store ''img_414141'' = None \<or>
         images initial_store ''img_414141'' = Some ''AAA'')"
    by (simp add: initial_store_def)
  with dedup_twice [OF a b] a b show ?thesis by blast
qed

text \<open>
  Counterexample to C6 as stated: the store already holds \<open>AAA\<close> under a key of the
  \<^verbatim>\<open>forceNew\<close> branch (an output image with the same bytes). Two deduplicating writes of
  \<open>AAA\<close> return the same key, and the store holds two copies of \<open>AAA\<close>. With another
  digest the content key is another one and the two copies remain: a content key is
  never a key of the \<^verbatim>\<open>forceNew\<close> branch (\<open>newImageId_not_hashImage\<close>).
\<close>

theorem dedup_twice_counterexample:
  "saveImageDeduped byte_digest (env_of 1700000000001 ''0.9zx8cv7bn6b'' {}) ''AAA'' False
       (initial_store\<lparr>images := [''img_1700000000000_k3j2h4g'' \<mapsto> ''AAA'']\<rparr>) =
     (Resolved ''img_414141'',
      initial_store\<lparr>images := [''img_1700000000000_k3j2h4g'' \<mapsto> ''AAA'',
                                ''img_414141'' \<mapsto> ''AAA'']\<rparr>) \<and>
   saveImageDeduped byte_digest (env_of 1700000000002 ''0.q1w2e3r4t5s'' {}) ''AAA'' False
       (initial_store\<lparr>images := [''img_1700000000000_k3j2h4g'' \<mapsto> ''AAA'',
                                 ''img_414141'' \<mapsto> ''AAA'']\<rparr>) =
     (Resolved ''img_414141'',
      initial_store\<lparr>images := [''img_1700000000000_k3j2h4g'' \<mapsto> ''AAA'',
                                ''img_414141'' \<mapsto> ''AAA'']\<rparr>) \<and>
   {k. images (initial_store\<lparr>images := [''img_1700000000000_k3j2h4g'' \<mapsto> ''AAA'',
                                ''img_414141'' \<mapsto> ''AAA'']\<rparr>) k = Some ''AAA''} =
     {''img_1700000000000_k3j2h4g'', ''img_414141''}"
  by (auto simp: saveImageDeduped_dedup hashImage_AAA env_of_simps initial_store_def
      split: if_splits)

subsection \<open>C7: the \<^verbatim>\<open>forceNew\<close> write, twice\<close>

text \<open>
  C7 says that two \<^verbatim>\<open>forceNew\<close> writes of the same bytes return two different keys which
  both resolve to the bytes. The key is made of the millisecond clock and of the
  characters 2 to 8 of \<^verbatim>\<open>Math.random().toString(36)\<close>, and the write does not look
  whether the key is in use (\<open>forceNew_keys_differ_iff\<close>). Here two writes of \<open>BBB\<close>
  happen within the same millisecond, and their random strings \<open>0.k3j2h4g5f6d\<close> and
  \<open>0.k3j2h4gzzz8\<close> agree in the seven characters used: both writes return the same key,
  and the object store holds one entry.
\<close>

theorem forceNew_key_collision:
  "saveImageDeduped byte_digest (env_of 1700000000000 ''0.k3j2h4g5f6d'' {}) ''BBB'' True initial_store =
     (Resolved ''img_1700000000000_k3j2h4g'',
      initial_store\<lparr>images := [''img_1700000000000_k3j2h4g'' \<mapsto> ''BBB'']\<rparr>) \<and>
   saveImageDeduped byte_digest (env_of 1700000000000 ''0.k3j2h4gzzz8'' {}) ''BBB'' True
       (initial_store\<lparr>images := [''img_1700000000000_k3j2h4g'' \<mapsto> ''BBB'']\<rparr>) =
     (Resolved ''img_1700000000000_k3j2h4g'',
      initial_store\<lparr>images := [''img_1700000000000_k3j2h4g'' \<mapsto> ''BBB'']\<rparr>)"
  by (simp add: saveImageDeduped_unique newImageId_example env_of_simps initial_store_def)

subsection \<open>C8: \<^verbatim>\<open>updateRunComment\<close> changes the comment only\<close>

text \<open>
  C8: for every id and comment text, \<^verbatim>\<open>updateRunComment\<close> sets \<^verbatim>\<open>human_comment\<close> of the row
  with that id and nothing else: the table after the call is the table before it with
  that one column replaced in that row, every row agrees with its predecessor in the
  sixteen other columns, every row with another id is unchanged, the row counter and
  the images are unchanged. \<^verbatim>\<open>getRunById\<close> of the id then returns a row that agrees in
  the sixteen other columns with the row it returned before, and whose comment is the
  given text when that text has no U+0000; \<^verbatim>\<open>getRunById\<close> of another id returns what it
  returned before. This holds however the snapshot write that follows ends.
\<close>

theorem updateRunComment_isolation:
  "runs (db (snd (updateRunComment env i comment s))) =
     map (\<lambda>r. if runId r = i then r\<lparr>humanComment := Some comment\<rparr> else r) (runs (db s)) \<and>
   list_all2 same_except_comment (runs (db s)) (runs (db (snd (updateRunComment env i comment s)))) \<and>
   list_all2 (\<lambda>r r'. runId r \<noteq> i \<longrightarrow> r' = r)
     (runs (db s)) (runs (db (snd (updateRunComment env i comment s)))) \<and>
   (\<forall>run. getRunById i s = Some run \<longrightarrow>
      (\<exists>run'. getRunById i (snd (updateRunComment env i comment s)) = Some run' \<and>
              same_except_comment run run')) \<and>
   (plain_text comment \<longrightarrow>
      (\<forall>run. getRunById i s = Some run \<longrightarrow>
         getRunById i (snd (updateRunComment env i comment s)) =
           Some (run\<lparr>humanComment := Some comment\<rparr>))) \<and>
   (\<forall>j. j \<noteq> i \<longrightarrow> getRunById j (snd (updateRunComment env i comment s)) = getRunById j s) \<and>
   sqlite_sequence (db (snd (updateRunComment env i comment s))) = sqlite_sequence (db s) \<and>
   images (snd (updateRunComment env i comment s)) = images s"
proof -
  let ?s' = "snd (updateRunComment env i comment s)"
  have rows: "runs (db ?s') =
      map (\<lambda>r. if runId r = i then r\<lparr>humanComment := Some comment\<rparr> else r) (runs (db s))"
    by (rule runs_updateRunComment)
  have a: "list_all2 same_except_comment (runs (db s)) (runs (db ?s'))"
    unfolding rows by (simp add: list_all2_map2 list_all2_same same_except_comment_def)
  have b: "list_all2 (\<lambda>r r'. runId r \<noteq> i \<longrightarrow> r' = r) (runs (db s)) (runs (db ?s'))"
    unfolding rows by (simp add: list_all2_map2 list_all2_same)
  have c: "\<exists>run'. getRunById i ?s' = Some run' \<and> same_except_comment run run'"
    if "getRunById i s = Some run" for run
    using getRunById_updateRunComment [OF that, of env comment]
    by (simp add: same_except_comment_def)
  have c'': "getRunById i ?s' = Some (run\<lparr>humanComment := Some comment\<rparr>)"
    if "plain_text comment" "getRunById i s = Some run" for run
    using getRunById_updateRunComment [OF that(2), of env comment] that(1)
    by (simp add: column_text_plain)
  have c': "getRunById j ?s' = getRunById j s" if "j \<noteq> i" for j
    using that by (simp add: getRunById_def sql_select_by_id_def rows find_map_update_other)
  have d: "sqlite_sequence (db ?s') = sqlite_sequence (db s)" "images ?s' = images s"
    by (simp_all add: updateRunComment_def persistDatabase_frame sql_update_comment_def)
  from rows a b c c'' c' d show ?thesis by blast
qed

text \<open>
  Witness for C8: the first run of \<open>store2\<close> gets a comment; the second run is as before.
\<close>

theorem updateRunComment_isolation_witness:
  "getRunById 1 store2 =
     Some (example_row 1 ''2024-01-01T10:00:00.000Z'' ''img_414141'' ''img_1700000000000_k3j2h4g'') \<and>
   plain_text ''too dark'' \<and>
   getRunById 1 (snd (updateRunComment (env_of 0 [] {}) 1 ''too dark'' store2)) =
     Some ((example_row 1 ''2024-01-01T10:00:00.000Z'' ''img_414141'' ''img_1700000000000_k3j2h4g'')
             \<lparr>humanComment := Some ''too dark''\<rparr>) \<and>
   getRunById 2 (snd (updateRunComment (env_of 0 [] {}) 1 ''too dark'' store2)) =
     getRunById 2 store2"
proof -
  have g: "getRunById 1 store2 =
     Some (example_row 1 ''2024-01-01T10:00:00.000Z'' ''img_414141'' ''img_1700000000000_k3j2h4g'')"
    by (simp add: getRunById_def sql_select_by_id_def store2_eq rows3_def example_row_keys
        plain_text_def)
  have t: "plain_text ''too dark''" by (simp add: plain_text_def)
  note iso = updateRunComment_isolation [of "env_of 0 [] {}" 1 "''too dark''" store2]
  from iso [THEN conjunct2, THEN conjunct2, THEN conjunct2, THEN conjunct2, THEN conjunct1,
      THEN mp, OF t, THEN spec, THEN mp, OF g]
  have 1: "getRunById 1 (snd (updateRunComment (env_of 0 [] {}) 1 ''too dark'' store2)) =
     Some ((example_row 1 ''2024-01-01T10:00:00.000Z'' ''img_414141'' ''img_1700000000000_k3j2h4g'')
             \<lparr>humanComment := Some ''too dark''\<rparr>)"
    .
  from iso [THEN conjunct2, THEN conjunct2, THEN conjunct2, THEN conjunct2, THEN conjunct2,
      THEN conjunct1, THEN spec, of 2]
  have 2: "getRunById 2 (snd (updateRunComment (env_of 0 [] {}) 1 ''too dark'' store2)) =
     getRunById 2 store2"
    by simp
  from g t 1 2 show ?thesis by simp
qed

subsection \<open>C9: a rejected \<^verbatim>\<open>deleteRun\<close>\<close>

text \<open>
  C9 says that a rejected \<^verbatim>\<open>deleteRun\<close> leaves every row as it was. \<^verbatim>\<open>deleteRun\<close> deletes
  the row first and can only be rejected afterwards, by the snapshot write or by an
  image deletion. What holds: when \<^verbatim>\<open>deleteRun\<close> is rejected, the row of the given id
  existed and is gone from the table, every row with another id is as before; when the
  snapshot write was rejected the snapshot and the images are as before, otherwise the
  snapshot is that of the table without the row.
\<close>

theorem deleteRun_failure:
  assumes "fst (deleteRun env i s) = Rejected e"
  shows "getRunById i s \<noteq> None \<and>
         runs (db (snd (deleteRun env i s))) = filter (\<lambda>r. runId r \<noteq> i) (runs (db s)) \<and>
         getRunById i (snd (deleteRun env i s)) = None \<and>
         (\<forall>j. j \<noteq> i \<longrightarrow> getRunById j (snd (deleteRun env i s)) = getRunById j s) \<and>
         (if e = IDBError SaveToIndexedDB
          then sqlite (snd (deleteRun env i s)) = sqlite s \<and>
               images (snd (deleteRun env i s)) = images s
          else sqlite (snd (deleteRun env i s)) = Some (db (snd (deleteRun env i s))))"
proof -
  let ?s' = "snd (deleteRun env i s)"
  from assms have some: "getRunById i s \<noteq> None"
    by (cases "getRunById i s") (auto simp: deleteRun_None)
  then obtain run where run: "sql_select_by_id i (db s) = Some run"
    by (auto simp: getRunById_def)
  have rows: "runs (db ?s') = filter (\<lambda>r. runId r \<noteq> i) (runs (db s))"
    by (simp add: deleteRun_db sql_delete_def)
  have gone: "getRunById i ?s' = None"
    and others: "\<forall>j. j \<noteq> i \<longrightarrow> getRunById j ?s' = getRunById j s"
    by (simp_all add: getRunById_deleteRun)
  have flush: "sqlite ?s' = sqlite s \<and> images ?s' = images s" if "e = IDBError SaveToIndexedDB"
  proof -
    from that assms have "SaveToIndexedDB \<in> faults env"
      by (auto simp: deleteRun_result [OF run] failure_def
          split: if_splits promise.splits elim!: settle_all.elims)
    then show ?thesis by (auto simp: deleteRun_sqlite deleteRun_images [OF run])
  qed
  have later: "sqlite ?s' = Some (db ?s')" if "e \<noteq> IDBError SaveToIndexedDB"
  proof -
    from that assms have "SaveToIndexedDB \<notin> faults env"
      by (auto simp: deleteRun_result [OF run] failure_def split: if_splits)
    with some show ?thesis by (auto simp: deleteRun_sqlite deleteRun_db)
  qed
  from some rows gone others flush later show ?thesis by simp
qed

text \<open>
  Witness for C9: the snapshot write is rejected while run 2 of \<open>store3\<close> is deleted;
  runs 1 and 3 remain, the snapshot and the images are as before.
\<close>

theorem deleteRun_failure_witness:
  "fst (deleteRun (env_of 1700000000007 [] {SaveToIndexedDB}) 2 store3) =
     Rejected (IDBError SaveToIndexedDB) \<and>
   map runId (runs (db (snd (deleteRun (env_of 1700000000007 [] {SaveToIndexedDB}) 2 store3)))) =
     [1, 3] \<and>
   sqlite (snd (deleteRun (env_of 1700000000007 [] {SaveToIndexedDB}) 2 store3)) = sqlite store3 \<and>
   images (snd (deleteRun (env_of 1700000000007 [] {SaveToIndexedDB}) 2 store3)) = images store3"
proof -
  let ?env = "env_of 1700000000007 [] {SaveToIndexedDB}"
  have f: "fst (deleteRun ?env 2 store3) = Rejected (IDBError SaveToIndexedDB)"
    by (simp add: deleteRun_result [OF sql_select_store3(2)] env_of_simps failure_def)
  from deleteRun_failure [OF f] f show ?thesis
    by (simp add: store3_eq rows3_def example_row_def)
qed

text \<open>
  Counterexample to C9 as stated: the deletion of the output image is rejected while
  run 1 of \<open>store1\<close> is deleted; \<^verbatim>\<open>deleteRun\<close> is rejected and the table, which held run 1,
  is empty.
\<close>

theorem deleteRun_failure_counterexample:
  "getRunById 1 store1 =
     Some (example_row 1 ''2024-01-01T10:00:00.000Z'' ''img_414141'' ''img_1700000000000_k3j2h4g'') \<and>
   fst (deleteRun (env_of 1700000000007 [] {DeleteImage ''img_1700000000000_k3j2h4g''}) 1 store1) =
     Rejected (IDBError (DeleteImage ''img_1700000000000_k3j2h4g'')) \<and>
   getRunById 1
     (snd (deleteRun (env_of 1700000000007 [] {DeleteImage ''img_1700000000000_k3j2h4g''}) 1 store1)) =
     None \<and>
   runs (db (snd (deleteRun (env_of 1700000000007 [] {DeleteImage ''img_1700000000000_k3j2h4g''})
                    1 store1))) = []"
proof -
  let ?row = "example_row 1 ''2024-01-01T10:00:00.000Z'' ''img_414141'' ''img_1700000000000_k3j2h4g''"
  have s: "sql_select_by_id 1 (db store1) = Some ?row"
    by (simp add: sql_select_by_id_def store1_eq rows3_def example_row_keys)
  then have g: "getRunById 1 store1 = Some ?row"
    by (simp add: getRunById_def plain_text_def)
  then show ?thesis
    by (simp add: deleteRun_result [OF s] getRunById_deleteRun deleteRun_db sql_delete_def
        env_of_simps example_row_keys sql_count_input_usage_def failure_def)
       (simp add: store1_eq rows3_def example_row_keys)
qed

subsection \<open>C10: \<^verbatim>\<open>updateRunComment\<close> on an id without a row\<close>

text \<open>
  C10: when no row has the id, \<^verbatim>\<open>updateRunComment\<close> is exactly \<^verbatim>\<open>persistDatabase\<close> on
  the unchanged store: the missing row raises no error, the table and the images are
  as before, and the snapshot is written again; the call succeeds unless that write
  itself fails.
\<close>

theorem updateRunComment_missing_id:
  assumes "getRunById i s = None"
  shows "updateRunComment env i comment s = persistDatabase env s \<and>
         db (snd (updateRunComment env i comment s)) = db s \<and>
         images (snd (updateRunComment env i comment s)) = images s \<and>
         (SaveToIndexedDB \<notin> faults env \<longrightarrow>
            updateRunComment env i comment s = (Resolved (), s\<lparr>sqlite := Some (db s)\<rparr>))"
proof -
  from assms have "\<forall>r \<in> set (runs (db s)). runId r \<noteq> i"
    by (simp add: getRunById_None_iff)
  then have "map (\<lambda>r. if runId r = i then r\<lparr>humanComment := Some comment\<rparr> else r) (runs (db s)) =
             runs (db s)"
    by (induction "runs (db s)") (auto simp: map_idI)
  then have "sql_update_comment comment i (db s) = db s"
    by (simp add: sql_update_comment_def)
  then have u: "updateRunComment env i comment s = persistDatabase env s"
    by (simp add: updateRunComment_def)
  then show ?thesis by (simp add: persistDatabase_frame) (simp add: persistDatabase_eq)
qed

text \<open>
  Witness for C10: no run of \<open>store2\<close> has id 7; the call succeeds and the store, whose
  snapshot was current, is as before.
\<close>

theorem updateRunComment_missing_id_witness:
  "getRunById 7 store2 = None \<and>
   updateRunComment (env_of 0 [] {}) 7 ''too dark'' store2 = (Resolved (), store2)"
proof -
  have g: "getRunById 7 store2 = None"
    by (simp add: getRunById_def sql_select_by_id_def store2_eq rows3_def example_row_def)
  from updateRunComment_missing_id [OF g, of "env_of 0 [] {}" "''too dark''"]
  have "SaveToIndexedDB \<notin> faults (env_of 0 [] {}) \<longrightarrow>
        updateRunComment (env_of 0 [] {}) 7 ''too dark'' store2 =
          (Resolved (), store2\<lparr>sqlite := Some (db store2)\<rparr>)"
    by blast
  moreover have "store2\<lparr>sqlite := Some (db store2)\<rparr> = store2"
    by (simp add: store2_eq)
  ultimately show ?thesis using g by (simp add: env_of_simps)
qed

end
